theory Spec2Isabelle
  imports Complex_Main
begin

chapter \<open>The notebooks as HOL functions\<close>

section \<open>Python values shared by the notebooks\<close>

text \<open>
  The notebooks are Python scripts over tensors and graphs. Exceptions are values of
  \<open>py_exception\<close>; a call that may raise returns \<open>py_exception + 'a\<close> with the
  exception on the left.
\<close>

datatype py_exception =
    TypeError
  | IndexError
  | KeyError
  | ZeroDivisionError
  | ValueError
  | UnboundLocalError
  | RuntimeError
  | DGLError

text \<open>
  Python's \<open>xs[start:stop]\<close> for integer bounds: a negative bound counts from the
  end, and both bounds are clipped to \<open>0 .. len(xs)\<close>; an empty range gives the
  empty sequence.
\<close>

definition slice_bound :: "int \<Rightarrow> int \<Rightarrow> int" where
  "slice_bound n i = (if i < 0 then max (i + n) 0 else min i n)"

definition py_slice :: "'a list \<Rightarrow> int \<Rightarrow> int \<Rightarrow> 'a list" where
  "py_slice xs start stop =
     (let n = int (length xs);
          lo = slice_bound n start;
          hi = slice_bound n stop
      in take (nat (hi - lo)) (drop (nat lo) xs))"

text \<open>
  Python's \<open>xs[i]\<close> on a list: indices \<open>-len(xs) .. len(xs) - 1\<close> are valid,
  anything else raises \<open>IndexError\<close>.
\<close>

definition py_getitem :: "'a list \<Rightarrow> int \<Rightarrow> py_exception + 'a" where
  "py_getitem xs i =
     (let n = int (length xs) in
      if 0 \<le> i \<and> i < n then Inr (xs ! nat i)
      else if - n \<le> i \<and> i < 0 then Inr (xs ! nat (i + n))
      else Inl IndexError)"

section \<open>Graphs\<close>

text \<open>
  A graph as the notebooks use it: nodes are \<open>0 ..< num_nodes\<close>, and the edge with
  ID \<open>e\<close> is the pair (source, destination) at position \<open>e\<close> of \<open>edges\<close>. The
  functions on graphs also apply to a graph that carries feature frames.
\<close>

record graph =
  num_nodes :: nat
  edges :: "(nat \<times> nat) list"

definition number_of_nodes :: "'a graph_scheme \<Rightarrow> nat" where
  "number_of_nodes g = num_nodes g"

definition number_of_edges :: "'a graph_scheme \<Rightarrow> nat" where
  "number_of_edges g = length (edges g)"

definition has_edge_between :: "'a graph_scheme \<Rightarrow> nat \<Rightarrow> nat \<Rightarrow> bool" where
  "has_edge_between g u v = ((u, v) \<in> set (edges g))"

definition in_degree :: "'a graph_scheme \<Rightarrow> nat \<Rightarrow> nat" where
  "in_degree g v = length (filter (\<lambda>e. snd e = v) (edges g))"

definition in_degrees :: "'a graph_scheme \<Rightarrow> nat list" where
  "in_degrees g = map (in_degree g) [0..<num_nodes g]"

section \<open>Neighbor sampler\<close>

text \<open>The IDs of the edges that enter node \<open>v\<close>, in increasing order.\<close>

definition in_edges :: "'a graph_scheme \<Rightarrow> nat \<Rightarrow> nat list" where
  "in_edges g v = filter (\<lambda>e. snd (edges g ! e) = v) [0..<length (edges g)]"

text \<open>
  Drawing up to \<open>k\<close> elements of a list at random without replacement: \<open>rnd\<close> is the
  source of random numbers, and each draw removes the drawn element from the list.
\<close>

fun sample_without_replacement ::
  "(nat \<Rightarrow> nat) \<Rightarrow> nat \<Rightarrow> 'a list \<Rightarrow> 'a list" where
  "sample_without_replacement rnd 0 xs = []"
| "sample_without_replacement rnd (Suc k) xs =
     (if xs = [] then []
      else let i = rnd k mod length xs
           in xs ! i # sample_without_replacement rnd k (take i xs @ drop (Suc i) xs))"

text \<open>
  Modelled from the spec: \<open>dgl.sampling.sample_neighbors(g, seed_nodes, fanout)\<close> is
  library code that is not in the repository. The glossary describes neighbor sampling
  as "selecting a bounded-fanout subset of a node's neighbors per layer". The frontier
  has the nodes of \<open>g\<close>; for every seed node it holds \<open>fanout\<close> of the edges that
  enter the node, drawn without replacement, or all of them when there are no more than
  \<open>fanout\<close>. \<open>rnd v\<close> is the source of random numbers for seed \<open>v\<close>. A seed that
  is not a node of \<open>g\<close> raises.
\<close>

definition sample_neighbors ::
  "(nat \<Rightarrow> nat \<Rightarrow> nat) \<Rightarrow> graph \<Rightarrow> nat list \<Rightarrow> nat \<Rightarrow> py_exception + graph" where
  "sample_neighbors rnd g seed_nodes fanout =
     (if list_all (\<lambda>v. v < num_nodes g) seed_nodes
      then Inr \<lparr>num_nodes = num_nodes g,
                edges = map (\<lambda>e. edges g ! e)
                          (concat (map (\<lambda>v. sample_without_replacement (rnd v) fanout
                                               (in_edges g v))
                                       seed_nodes))\<rparr>
      else Inl DGLError)"

text \<open>
  Notebook 3:
  \<^verbatim>\<open>
    class MultiLayerNeighborSampler(dgl.dataloading.BlockSampler):
        def __init__(self, fanouts):
            super().__init__(len(fanouts), return_eids=False)
            self.fanouts = fanouts
        def sample_frontier(self, block_id, g, seed_nodes):
            fanout = self.fanouts[block_id]
            return dgl.sampling.sample_neighbors(g, seed_nodes, fanout)
  \<close>
\<close>

record MultiLayerNeighborSampler =
  num_layers :: nat
  return_eids :: bool
  fanouts :: "nat list"

definition MultiLayerNeighborSampler_init :: "nat list \<Rightarrow> MultiLayerNeighborSampler" where
  "MultiLayerNeighborSampler_init fs =
     \<lparr>num_layers = length fs, return_eids = False, fanouts = fs\<rparr>"

definition sample_frontier ::
  "MultiLayerNeighborSampler \<Rightarrow> (nat \<Rightarrow> nat \<Rightarrow> nat) \<Rightarrow> int \<Rightarrow> graph \<Rightarrow> nat list
     \<Rightarrow> py_exception + graph" where
  "sample_frontier self rnd block_id g seed_nodes =
     (case py_getitem (fanouts self) block_id of
        Inl e \<Rightarrow> Inl e
      | Inr fanout \<Rightarrow> sample_neighbors rnd g seed_nodes fanout)"

section \<open>Data loader for distributed data parallel training\<close>

text \<open>
  Notebook 3, \<open>create_dataloader(rank, world_size, graph, nids)\<close>:
  \<^verbatim>\<open>
    partition_size = len(nids) // world_size
    partition_offset = partition_size * rank
    nids = nids[partition_offset:partition_offset+partition_size]
    sampler = MultiLayerNeighborSampler([4, 4, 4])
    dataloader = dgl.dataloading.NodeDataLoader(graph, nids, sampler,
        batch_size=1024, shuffle=True, drop_last=False, num_workers=0)
    return dataloader
  \<close>
  The loader is the record of what it was built from; it iterates over \<open>dl_nids\<close>.

  Modelled from the spec: the constructor \<open>NodeDataLoader\<close> is library code that is
  not in the repository. With \<open>shuffle=True\<close> it sets up a random order of the node
  IDs, which needs at least one of them: on an empty list of node IDs the constructor
  raises \<open>ValueError\<close>, as it does for a batch size that is not positive.
\<close>

record NodeDataLoader =
  dl_graph :: graph
  dl_nids :: "nat list"
  dl_sampler :: MultiLayerNeighborSampler
  dl_batch_size :: int
  dl_shuffle :: bool
  dl_drop_last :: bool
  dl_num_workers :: nat

definition NodeDataLoader_init ::
  "graph \<Rightarrow> nat list \<Rightarrow> MultiLayerNeighborSampler \<Rightarrow> int \<Rightarrow> bool \<Rightarrow> bool \<Rightarrow> nat
     \<Rightarrow> py_exception + NodeDataLoader" where
  "NodeDataLoader_init g nids sampler batch_size shuffle drop_last workers =
     (if batch_size \<le> 0 then Inl ValueError
      else if shuffle \<and> nids = [] then Inl ValueError
      else Inr \<lparr>dl_graph = g, dl_nids = nids, dl_sampler = sampler,
                dl_batch_size = batch_size, dl_shuffle = shuffle, dl_drop_last = drop_last,
                dl_num_workers = workers\<rparr>)"

definition create_dataloader ::
  "int \<Rightarrow> int \<Rightarrow> graph \<Rightarrow> nat list \<Rightarrow> py_exception + NodeDataLoader" where
  "create_dataloader rank world_size g nids =
     (if world_size = 0 then Inl ZeroDivisionError
      else
        let partition_size = int (length nids) div world_size;
            partition_offset = partition_size * rank;
            nids' = py_slice nids partition_offset (partition_offset + partition_size);
            sampler = MultiLayerNeighborSampler_init [4, 4, 4]
        in NodeDataLoader_init g nids' sampler 1024 True False 0)"

text \<open>The node IDs the worker of a rank iterates over (none when the call raises).\<close>

definition worker_nids :: "int \<Rightarrow> int \<Rightarrow> graph \<Rightarrow> nat list \<Rightarrow> nat list" where
  "worker_nids rank world_size g nids =
     (case create_dataloader rank world_size g nids of
        Inl _ \<Rightarrow> []
      | Inr dl \<Rightarrow> dl_nids dl)"

section \<open>Training loops and checkpoints\<close>

text \<open>
  Both training loops keep the best validation accuracy seen and save the model's
  state dict to \<open>model.pt\<close> when an epoch beats it:
  \<^verbatim>\<open>
    best_accuracy = 0
    best_model_path = 'model.pt'
    for epoch in range(10):
        ...
        if best_accuracy < accuracy:
            best_accuracy = accuracy
            torch.save(model.state_dict(), best_model_path)
  \<close>
  The state of a loop is the model's state dict (of an abstract type \<open>'m\<close>),
  \<open>best_accuracy\<close>, the contents of \<open>model.pt\<close> as written by this loop
  (\<open>None\<close> before the first \<open>torch.save\<close>), and the epochs in which
  \<open>torch.save\<close> ran, oldest first.
\<close>

record 'm train_state =
  model :: 'm
  best_accuracy :: real
  model_pt :: "'m option"
  save_epochs :: "nat list"

definition init_state :: "'m \<Rightarrow> 'm train_state" where
  "init_state m0 = \<lparr>model = m0, best_accuracy = 0, model_pt = None, save_epochs = []\<rparr>"

definition save_if_best :: "real \<Rightarrow> nat \<Rightarrow> 'm train_state \<Rightarrow> 'm train_state" where
  "save_if_best accuracy epoch st =
     (if best_accuracy st < accuracy
      then st\<lparr>best_accuracy := accuracy,
              model_pt := Some (model st),
              save_epochs := save_epochs st @ [epoch]\<rparr>
      else st)"

text \<open>
  Notebook 3, \<open>train(rank, world_size, data)\<close>. The minibatch steps of one epoch
  (forward, loss, backward, optimizer step, synchronised by
  \<open>DistributedDataParallel\<close>) are the parameter \<open>fit\<close>, which maps the epoch and
  the state dict before it to the state dict after it. The validation pass of rank 0
  (predictions over \<open>valid_dataloader\<close>, which samples neighbors at random, then
  \<open>accuracy_score\<close>) is the parameter \<open>validate\<close>, which maps the epoch and the
  state dict to the accuracy. Only rank 0 validates and saves.
\<close>

definition train_epoch ::
  "int \<Rightarrow> (nat \<Rightarrow> 'm \<Rightarrow> 'm) \<Rightarrow> (nat \<Rightarrow> 'm \<Rightarrow> real) \<Rightarrow> nat \<Rightarrow> 'm train_state
     \<Rightarrow> 'm train_state" where
  "train_epoch rank fit validate epoch st =
     (let st1 = st\<lparr>model := fit epoch (model st)\<rparr> in
      if rank = 0
      then (let accuracy = validate epoch (model st1) in save_if_best accuracy epoch st1)
      else st1)"

text \<open>The state after the first \<open>n\<close> epochs; the notebook runs \<open>range(10)\<close>.\<close>

definition train_epochs ::
  "int \<Rightarrow> (nat \<Rightarrow> 'm \<Rightarrow> 'm) \<Rightarrow> (nat \<Rightarrow> 'm \<Rightarrow> real) \<Rightarrow> nat \<Rightarrow> 'm \<Rightarrow> 'm train_state" where
  "train_epochs rank fit validate n m0 =
     fold (train_epoch rank fit validate) [0..<n] (init_state m0)"

definition train ::
  "int \<Rightarrow> (nat \<Rightarrow> 'm \<Rightarrow> 'm) \<Rightarrow> (nat \<Rightarrow> 'm \<Rightarrow> real) \<Rightarrow> 'm \<Rightarrow> 'm train_state" where
  "train rank fit validate m0 = train_epochs rank fit validate 10 m0"

text \<open>The state dict at the end of the training steps of epoch \<open>e\<close>.\<close>

definition epoch_model :: "(nat \<Rightarrow> 'm \<Rightarrow> 'm) \<Rightarrow> 'm \<Rightarrow> nat \<Rightarrow> 'm" where
  "epoch_model fit m0 e = fold fit [0..<Suc e] m0"

text \<open>The validation accuracy rank 0 computes in epoch \<open>e\<close>.\<close>

definition epoch_accuracy ::
  "(nat \<Rightarrow> 'm \<Rightarrow> 'm) \<Rightarrow> (nat \<Rightarrow> 'm \<Rightarrow> real) \<Rightarrow> 'm \<Rightarrow> nat \<Rightarrow> real" where
  "epoch_accuracy fit validate m0 e = validate e (epoch_model fit m0 e)"

subsection \<open>The unsupervised loop and its evaluation call\<close>

text \<open>
  A Python call with positional arguments only, of a function whose parameters have
  no defaults: the arguments are bound to the parameters in order, and a call with
  too few or too many arguments raises \<open>TypeError\<close> before the body runs.
\<close>

definition bind_positional :: "string list \<Rightarrow> 'v list \<Rightarrow> py_exception + (string \<times> 'v) list" where
  "bind_positional params args =
     (if length args = length params then Inr (zip params args) else Inl TypeError)"

text \<open>
  Notebook 2, \<open>def evaluate(emb, label, train_nids, valid_nids, test_nids)\<close>. Its body
  (fit a logistic regression on the training rows, predict, score) is the parameter
  \<open>body\<close>, which maps the bound arguments to \<open>(valid_acc, test_acc)\<close>.
\<close>

definition evaluate_params :: "string list" where
  "evaluate_params = [''emb'', ''label'', ''train_nids'', ''valid_nids'', ''test_nids'']"

definition evaluate ::
  "((string \<times> 'v) list \<Rightarrow> real \<times> real) \<Rightarrow> 'v list \<Rightarrow> py_exception + real \<times> real" where
  "evaluate body args =
     (case bind_positional evaluate_params args of
        Inl e \<Rightarrow> Inl e
      | Inr env \<Rightarrow> Inr (body env))"

text \<open>
  A loop either runs to its end or stops at an exception; either way the state it
  reached is kept.
\<close>

datatype 's outcome = Done 's | Raised py_exception 's

fun run_epochs :: "(nat \<Rightarrow> 's \<Rightarrow> 's outcome) \<Rightarrow> nat list \<Rightarrow> 's \<Rightarrow> 's outcome" where
  "run_epochs step [] st = Done st"
| "run_epochs step (e # es) st =
     (case step e st of
        Done st' \<Rightarrow> run_epochs step es st'
      | Raised x st' \<Rightarrow> Raised x st')"

text \<open>
  Notebook 2, the body of \<open>for epoch in range(10)\<close>:
  \<^verbatim>\<open>
    model.train()
    ... minibatch steps ...
    model.eval()
    emb = inference(model, graph, node_features, 16384)
    valid_acc, test_acc = evaluate(emb.numpy(), node_labels.numpy())
    print(...)
    if best_accuracy < valid_acc:
        best_accuracy = valid_acc
        torch.save(model.state_dict(), best_model_path)
  \<close>
  \<open>fit\<close> is the minibatch steps of an epoch, \<open>infer\<close> the embedding computed
  from the trained model, \<open>node_labels\<close> the label array.
\<close>

definition unsupervised_epoch ::
  "(nat \<Rightarrow> 'm \<Rightarrow> 'm) \<Rightarrow> ('m \<Rightarrow> 'v) \<Rightarrow> ((string \<times> 'v) list \<Rightarrow> real \<times> real) \<Rightarrow> 'v
     \<Rightarrow> nat \<Rightarrow> 'm train_state \<Rightarrow> 'm train_state outcome" where
  "unsupervised_epoch fit infer body node_labels epoch st =
     (let st1 = st\<lparr>model := fit epoch (model st)\<rparr>;
          emb = infer (model st1)
      in case evaluate body [emb, node_labels] of
           Inl e \<Rightarrow> Raised e st1
         | Inr (valid_acc, test_acc) \<Rightarrow> Done (save_if_best valid_acc epoch st1))"

definition unsupervised_training ::
  "(nat \<Rightarrow> 'm \<Rightarrow> 'm) \<Rightarrow> ('m \<Rightarrow> 'v) \<Rightarrow> ((string \<times> 'v) list \<Rightarrow> real \<times> real) \<Rightarrow> 'v
     \<Rightarrow> 'm \<Rightarrow> 'm train_state outcome" where
  "unsupervised_training fit infer body node_labels m0 =
     run_epochs (unsupervised_epoch fit infer body node_labels) [0..<10] (init_state m0)"

section \<open>Negative sampler\<close>

text \<open>
  Modelled from the spec: the library calls of the negative sampler are not in the
  repository. \<open>g.find_edges(eids)\<close> gives the source and destination node of each
  edge ID, in the order given; an edge ID the graph does not have raises.
\<close>

definition find_edges :: "graph \<Rightarrow> nat list \<Rightarrow> py_exception + nat list \<times> nat list" where
  "find_edges g eids =
     (if list_all (\<lambda>e. e < length (edges g)) eids
      then Inr (map (\<lambda>e. fst (edges g ! e)) eids, map (\<lambda>e. snd (edges g ! e)) eids)
      else Inl DGLError)"

text \<open>\<open>t.repeat_interleave(k)\<close>: every element \<open>k\<close> times in a row.\<close>

definition repeat_interleave :: "'a list \<Rightarrow> nat \<Rightarrow> 'a list" where
  "repeat_interleave xs k = concat (map (replicate k) xs)"

text \<open>
  \<open>weights.multinomial(n, replacement=True)\<close> draws \<open>n\<close> indices into
  \<open>weights\<close> one after the other, each draw independent of the others, and each
  draw giving index \<open>d\<close> with probability \<open>weights[d] / sum(weights)\<close>. So the
  probability that the draws give the list \<open>drawn\<close> is the product of these
  probabilities.
\<close>

definition multinomial_prob :: "real list \<Rightarrow> nat list \<Rightarrow> real" where
  "multinomial_prob weights drawn =
     prod_list (map (\<lambda>d. weights ! d / sum_list weights) drawn)"

text \<open>
  The call raises \<open>RuntimeError\<close> when asked for no sample, on a negative weight, and
  when the weights do not sum to a positive number. Otherwise the draw is random, so the
  model is the set of its possible results: the lists of \<open>n\<close> indices that have a
  positive probability.
\<close>

definition multinomial :: "real list \<Rightarrow> nat \<Rightarrow> py_exception + nat list \<Rightarrow> bool" where
  "multinomial weights n result =
     (if n = 0 \<or> list_ex (\<lambda>w. w < 0) weights \<or> sum_list weights \<le> 0
      then result = Inl RuntimeError
      else (case result of
              Inl _ \<Rightarrow> False
            | Inr drawn \<Rightarrow>
                length drawn = n \<and> list_all (\<lambda>d. d < length weights) drawn \<and>
                0 < multinomial_prob weights drawn))"

text \<open>
  Notebook 2:
  \<^verbatim>\<open>
    class NegativeSampler(object):
        def __init__(self, g, k):
            self.k = k
            self.weights = g.in_degrees().float() ** 0.75
        def __call__(self, g, eids):
            src, _ = g.find_edges(eids)
            src = src.repeat_interleave(self.k)
            dst = self.weights.multinomial(len(src), replacement=True)
            return src, dst
  \<close>
  \<open>NegativeSampler_call self g eids result\<close> holds when \<open>result\<close> is a possible
  outcome of the call: \<open>Inr (src, dst)\<close> for a pair it can return, \<open>Inl e\<close> for an
  exception it raises.
\<close>

record NegativeSampler =
  ns_k :: nat
  ns_weights :: "real list"

definition NegativeSampler_init :: "graph \<Rightarrow> nat \<Rightarrow> NegativeSampler" where
  "NegativeSampler_init g k =
     \<lparr>ns_k = k, ns_weights = map (\<lambda>d. real d powr (3 / 4)) (in_degrees g)\<rparr>"

definition NegativeSampler_call ::
  "NegativeSampler \<Rightarrow> graph \<Rightarrow> nat list \<Rightarrow> py_exception + nat list \<times> nat list \<Rightarrow> bool" where
  "NegativeSampler_call self g eids result =
     (case find_edges g eids of
        Inl e \<Rightarrow> result = Inl e
      | Inr (src, _) \<Rightarrow>
          (let src' = repeat_interleave src (ns_k self)
           in case result of
                Inl e \<Rightarrow> multinomial (ns_weights self) (length src') (Inl e)
              | Inr (s, dst) \<Rightarrow>
                  s = src' \<and> multinomial (ns_weights self) (length src') (Inr dst)))"

section \<open>Distributed tensors, graphs and embeddings\<close>

text \<open>
  Notebook \<open>5-distributed/2-basic\<close> calls the distributed API of the graph library:
  \<open>DistGraph\<close>, \<open>DistTensor\<close>, \<open>DistEmbedding\<close> and \<open>SparseAdagrad\<close>. A tensor
  is the list of its rows along the first dimension, each row flattened.
\<close>

datatype dtype = Float32 | Float64 | Int64 | Bool8

type_synonym tensor = "real list list"

definition num_rows :: "nat list \<Rightarrow> nat" where
  "num_rows shape = (case shape of [] \<Rightarrow> 1 | n # _ \<Rightarrow> n)"

definition row_size :: "nat list \<Rightarrow> nat" where
  "row_size shape = prod_list (tl shape)"

definition zeros :: "nat list \<Rightarrow> tensor" where
  "zeros shape = replicate (num_rows shape) (replicate (row_size shape) 0)"

record DistTensor =
  dt_shape :: "nat list"
  dt_dtype :: dtype
  dt_rows :: tensor

text \<open>
  Modelled from the spec: the constructor \<open>dgl.distributed.DistTensor(shape, dtype,
  init_func=None)\<close> is library code that is not in the repository. The spec names it
  "a distributed-tensor constructor taking shape/dtype/init-function", and the notebook
  says "By default, the created tensor is initialized to 0" and "We can customize the
  initialization by providing an initialization function", which it calls as
  \<open>init(shape, dtype)\<close>.
\<close>

definition DistTensor_init ::
  "nat list \<Rightarrow> dtype \<Rightarrow> (nat list \<Rightarrow> dtype \<Rightarrow> tensor) option \<Rightarrow> DistTensor" where
  "DistTensor_init shape dt init_func =
     \<lparr>dt_shape = shape, dt_dtype = dt,
      dt_rows = (case init_func of
                   None \<Rightarrow> zeros shape
                 | Some init \<Rightarrow> init shape dt)\<rparr>"

text \<open>
  Modelled from the spec: reading \<open>arr[start:stop]\<close> from a distributed tensor. The
  glossary has the data "accessed via slicing", and the notebook says the slice "copies
  the data to the local process". The slice asks the servers for the rows
  \<open>start, start + 1, ..., stop - 1\<close>; unlike a slice of a Python list it is not
  clipped, and a row the tensor does not have raises \<open>IndexError\<close>.
\<close>

definition DistTensor_getitem :: "DistTensor \<Rightarrow> int \<Rightarrow> int \<Rightarrow> py_exception + tensor" where
  "DistTensor_getitem arr start stop =
     (if stop \<le> start then Inr []
      else if 0 \<le> start \<and> stop \<le> int (length (dt_rows arr))
      then Inr (take (nat (stop - start)) (drop (nat start) (dt_rows arr)))
      else Inl IndexError)"

text \<open>
  The distributed graph, as far as the notebook reads and writes it: the node and edge
  counts, and the node-data and edge-data mappings from a name to a distributed tensor.
\<close>

record DistGraph =
  dist_num_nodes :: nat
  dist_num_edges :: nat
  dist_ndata :: "string \<rightharpoonup> DistTensor"
  dist_edata :: "string \<rightharpoonup> DistTensor"

text \<open>The statement \<open>g.ndata[name] = arr\<close>.\<close>

definition ndata_setitem :: "DistGraph \<Rightarrow> string \<Rightarrow> DistTensor \<Rightarrow> DistGraph" where
  "ndata_setitem g name arr = g\<lparr>dist_ndata := (dist_ndata g)(name \<mapsto> arr)\<rparr>"

text \<open>
  Modelled from the spec: \<open>DistEmbedding\<close> and \<open>SparseAdagrad\<close> are library code
  that is not in the repository. The glossary calls a distributed embedding "a sparse,
  shard-distributed lookup table of trainable vectors updated via sparse gradient
  steps", and the notebook says "When the embeddings are updated by a mini-batch, only
  the embeddings involved in the mini-batch are updated".

  The table is a tensor with one row per embedding. A lookup \<open>emb(idx)\<close> returns the
  rows at \<open>idx\<close>; while gradients are recorded it also notes the indices in the
  trace, under \<open>th.no_grad()\<close> it does not. \<open>loss.backward()\<close> gives one gradient row
  for each looked-up row; \<open>grad_of\<close> stands for the loss of the caller. The
  optimizer's step applies its update rule (the parameter \<open>rule\<close>, from the row and
  its gradient to the new row) at every traced index, and empties the trace.
\<close>

record DistEmbedding =
  emb_table :: tensor
  emb_trace :: "nat list"

definition DistEmbedding_init ::
  "nat \<Rightarrow> nat \<Rightarrow> (nat list \<Rightarrow> dtype \<Rightarrow> tensor) \<Rightarrow> DistEmbedding" where
  "DistEmbedding_init num_embeddings embedding_dim init_func =
     \<lparr>emb_table = init_func [num_embeddings, embedding_dim] Float32, emb_trace = []\<rparr>"

definition DistEmbedding_call ::
  "bool \<Rightarrow> DistEmbedding \<Rightarrow> nat list \<Rightarrow> py_exception + tensor \<times> DistEmbedding" where
  "DistEmbedding_call recording emb idx =
     (if list_all (\<lambda>i. i < length (emb_table emb)) idx
      then Inr (map (\<lambda>i. emb_table emb ! i) idx,
                if recording then emb\<lparr>emb_trace := emb_trace emb @ idx\<rparr> else emb)
      else Inl IndexError)"

definition sparse_update ::
  "(real list \<Rightarrow> real list \<Rightarrow> real list) \<Rightarrow> tensor \<Rightarrow> (nat \<times> real list) list \<Rightarrow> tensor" where
  "sparse_update rule table grads =
     fold (\<lambda>(i, gr) tbl. if i < length tbl then tbl[i := rule (tbl ! i) gr] else tbl) grads table"

definition optimizer_step ::
  "(real list \<Rightarrow> real list \<Rightarrow> real list) \<Rightarrow> (tensor \<Rightarrow> tensor) \<Rightarrow> DistEmbedding \<Rightarrow> DistEmbedding" where
  "optimizer_step rule grad_of emb =
     (let feats = map (\<lambda>i. emb_table emb ! i) (emb_trace emb);
          grads = zip (emb_trace emb) (grad_of feats)
      in \<lparr>emb_table = sparse_update rule (emb_table emb) grads, emb_trace = []\<rparr>)"

subsection \<open>The cells of the notebook\<close>

text \<open>
  The notebook is a linear script. Its variables are the graph \<open>g\<close>, the tensor
  \<open>arr\<close> and the embedding \<open>emb\<close>; a cell is a function on them, and the state
  starts after the cells that initialise the library and load the graph into \<open>g\<close>.
  (\<open>arr\<close> and \<open>emb\<close> hold some value before the cells that first assign them; the
  notebook's cells never read them earlier.) The cells that
  only print (node and edge counts, the keys of \<open>g.ndata\<close> and \<open>g.edata\<close>, the
  slices \<open>[0:10]\<close> of \<open>train_mask\<close>, \<open>orig_id\<close> and \<open>arr\<close>, and the embedding
  rows read under \<open>th.no_grad()\<close>) change no variable; reading a name that
  \<open>g.ndata\<close> does not have raises \<open>KeyError\<close>, and a slice \<open>[0:10]\<close> of a tensor
  with fewer than ten rows raises \<open>IndexError\<close>. \<open>init\<close> is the notebook's
  \<open>init(shape, dtype) = th.rand(shape, dtype=dtype)\<close> with the random values it
  draws; \<open>rule\<close> is the update rule of \<open>SparseAdagrad([emb], lr=0.001)\<close>.
\<close>

record notebook =
  nb_g :: DistGraph
  nb_arr :: DistTensor
  nb_emb :: DistEmbedding

datatype cell =
    PrintCounts
  | PrintNdataKeys
  | PrintTrainMask
  | PrintTrainMaskSlice
  | PrintOrigId
  | PrintEdataKeys
  | CreateArr
  | ShowArr
  | CreateArrInit
  | AssignNdata
  | CreateEmb
  | TrainStep
  | PrintEmb

text \<open>The gradient of \<open>loss = th.sum(feats + 1)\<close>: one for every entry of \<open>feats\<close>.\<close>

definition sum_loss_grad :: "tensor \<Rightarrow> tensor" where
  "sum_loss_grad feats = map (\<lambda>row. map (\<lambda>_. 1) row) feats"

fun run_cell ::
  "(nat list \<Rightarrow> dtype \<Rightarrow> tensor) \<Rightarrow> (real list \<Rightarrow> real list \<Rightarrow> real list) \<Rightarrow> cell \<Rightarrow> notebook
     \<Rightarrow> py_exception + notebook" where
  "run_cell init rule CreateArr nb =
     Inr (nb\<lparr>nb_arr := DistTensor_init [dist_num_nodes (nb_g nb)] Float32 None\<rparr>)"
| "run_cell init rule CreateArrInit nb =
     Inr (nb\<lparr>nb_arr := DistTensor_init [dist_num_nodes (nb_g nb)] Float32 (Some init)\<rparr>)"
| "run_cell init rule AssignNdata nb =
     Inr (nb\<lparr>nb_g := ndata_setitem (nb_g nb) ''new_data'' (nb_arr nb)\<rparr>)"
| "run_cell init rule CreateEmb nb =
     Inr (nb\<lparr>nb_emb := DistEmbedding_init (dist_num_nodes (nb_g nb)) 10 init\<rparr>)"
| "run_cell init rule TrainStep nb =
     (case DistEmbedding_call True (nb_emb nb) [0, 1, 2, 3] of
        Inl e \<Rightarrow> Inl e
      | Inr (feats, emb') \<Rightarrow> Inr (nb\<lparr>nb_emb := optimizer_step rule sum_loss_grad emb'\<rparr>))"
| "run_cell init rule PrintEmb nb =
     (case DistEmbedding_call False (nb_emb nb) [0, 1, 2, 3] of
        Inl e \<Rightarrow> Inl e
      | Inr (feats, emb') \<Rightarrow> Inr (nb\<lparr>nb_emb := emb'\<rparr>))"
| "run_cell init rule PrintTrainMask nb =
     (case dist_ndata (nb_g nb) ''train_mask'' of None \<Rightarrow> Inl KeyError | Some _ \<Rightarrow> Inr nb)"
| "run_cell init rule PrintTrainMaskSlice nb =
     (case dist_ndata (nb_g nb) ''train_mask'' of
        None \<Rightarrow> Inl KeyError
      | Some t \<Rightarrow> (case DistTensor_getitem t 0 10 of Inl e \<Rightarrow> Inl e | Inr _ \<Rightarrow> Inr nb))"
| "run_cell init rule PrintOrigId nb =
     (case dist_ndata (nb_g nb) ''orig_id'' of
        None \<Rightarrow> Inl KeyError
      | Some t \<Rightarrow> (case DistTensor_getitem t 0 10 of Inl e \<Rightarrow> Inl e | Inr _ \<Rightarrow> Inr nb))"
| "run_cell init rule ShowArr nb =
     (case DistTensor_getitem (nb_arr nb) 0 10 of Inl e \<Rightarrow> Inl e | Inr _ \<Rightarrow> Inr nb)"
| "run_cell init rule c nb = Inr nb"

fun run_cells ::
  "(nat list \<Rightarrow> dtype \<Rightarrow> tensor) \<Rightarrow> (real list \<Rightarrow> real list \<Rightarrow> real list) \<Rightarrow> cell list \<Rightarrow> notebook
     \<Rightarrow> py_exception + notebook" where
  "run_cells init rule [] nb = Inr nb"
| "run_cells init rule (c # cs) nb =
     (case run_cell init rule c nb of
        Inl e \<Rightarrow> Inl e
      | Inr nb' \<Rightarrow> run_cells init rule cs nb')"

definition notebook_cells :: "cell list" where
  "notebook_cells =
     [PrintCounts, PrintNdataKeys, PrintTrainMask, PrintTrainMaskSlice, PrintOrigId,
      PrintEdataKeys, CreateArr, ShowArr, CreateArrInit, ShowArr, AssignNdata, CreateEmb,
      TrainStep, PrintEmb]"

section \<open>Score predictor\<close>

text \<open>
  A graph with its node and edge feature frames: \<open>g.ndata\<close> and \<open>g.edata\<close> map a
  feature name to a tensor with one row per node or per edge.
\<close>

record DGLGraph = graph +
  ndata :: "string \<rightharpoonup> tensor"
  edata :: "string \<rightharpoonup> tensor"

definition valid_graph :: "('a graph_scheme) \<Rightarrow> bool" where
  "valid_graph g = list_all (\<lambda>(u, v). u < num_nodes g \<and> v < num_nodes g) (edges g)"

text \<open>
  Modelled from the spec: the library calls of \<open>ScorePredictor.forward\<close> are not
  in the repository; the spec lists \<open>apply_edges\<close> among the library primitives the
  notebooks call, and the notebook describes them ("This can be easily accomplished
  with \<open>apply_edges\<close> method. Here, we will simply compute the score by dot product
  of the representations of both incident nodes"):
  \<^item> \<open>g.ndata[name] = x\<close> stores a node feature; \<open>x\<close> needs one row per node;
  \<^item> \<open>dgl.function.u_dot_v(lhs, rhs, out)\<close> is the edge function that gives every
    edge \<open>(u, v)\<close> the one-element row holding the dot product of \<open>lhs\<close> at \<open>u\<close> and
    \<open>rhs\<close> at \<open>v\<close>, under the name \<open>out\<close>;
  \<^item> \<open>g.apply_edges(f)\<close> stores the result of the edge function as an edge feature;
  \<^item> \<open>with g.local_scope():\<close> runs its body and then drops every change the body
    made to the feature frames.
\<close>

definition dot :: "real list \<Rightarrow> real list \<Rightarrow> real" where
  "dot a b = sum_list (map2 (*) a b)"

definition ndata_set :: "DGLGraph \<Rightarrow> string \<Rightarrow> tensor \<Rightarrow> py_exception + DGLGraph" where
  "ndata_set g name x =
     (if length x = num_nodes g then Inr (g\<lparr>ndata := (ndata g)(name \<mapsto> x)\<rparr>)
      else Inl DGLError)"

definition u_dot_v ::
  "string \<Rightarrow> string \<Rightarrow> string \<Rightarrow> DGLGraph \<Rightarrow> py_exception + string \<times> tensor" where
  "u_dot_v lhs rhs out g =
     (case ndata g lhs of
        None \<Rightarrow> Inl KeyError
      | Some a \<Rightarrow>
          (case ndata g rhs of
             None \<Rightarrow> Inl KeyError
           | Some b \<Rightarrow>
               if list_all (\<lambda>(u, v). u < length a \<and> v < length b) (edges g)
               then Inr (out, map (\<lambda>(u, v). [dot (a ! u) (b ! v)]) (edges g))
               else Inl DGLError))"

definition apply_edges ::
  "(DGLGraph \<Rightarrow> py_exception + string \<times> tensor) \<Rightarrow> DGLGraph \<Rightarrow> py_exception + DGLGraph" where
  "apply_edges func g =
     (case func g of
        Inl e \<Rightarrow> Inl e
      | Inr (name, t) \<Rightarrow> Inr (g\<lparr>edata := (edata g)(name \<mapsto> t)\<rparr>))"

definition local_scope ::
  "DGLGraph \<Rightarrow> (DGLGraph \<Rightarrow> py_exception + 'a \<times> DGLGraph) \<Rightarrow> py_exception + 'a \<times> DGLGraph" where
  "local_scope g body =
     (case body g of
        Inl e \<Rightarrow> Inl e
      | Inr (r, g') \<Rightarrow> Inr (r, g'\<lparr>ndata := ndata g, edata := edata g\<rparr>))"

text \<open>
  Notebook 2:
  \<^verbatim>\<open>
    class ScorePredictor(nn.Module):
        def forward(self, subgraph, x):
            with subgraph.local_scope():
                subgraph.ndata['x'] = x
                subgraph.apply_edges(dgl.function.u_dot_v('x', 'x', 'score'))
                return subgraph.edata['score']
  \<close>
  The result is the returned scores together with the subgraph as the call leaves it.
\<close>

definition ScorePredictor_forward :: "DGLGraph \<Rightarrow> tensor \<Rightarrow> py_exception + tensor \<times> DGLGraph" where
  "ScorePredictor_forward subgraph x =
     local_scope subgraph (\<lambda>sg.
       case ndata_set sg ''x'' x of
         Inl e \<Rightarrow> Inl e
       | Inr sg1 \<Rightarrow>
           (case apply_edges (u_dot_v ''x'' ''x'' ''score'') sg1 of
              Inl e \<Rightarrow> Inl e
            | Inr sg2 \<Rightarrow>
                (case edata sg2 ''score'' of
                   None \<Rightarrow> Inl KeyError
                 | Some score \<Rightarrow> Inr (score, sg2))))"

section \<open>GraphSAGE model and layer-wise inference\<close>

text \<open>
  Modelled from the spec: the layers (\<open>dglnn.SAGEConv\<close>), the blocks and the
  \<open>NodeDataLoader\<close> are library code that is not in the repository.

  A block is a bipartite graph from source nodes to destination nodes, both numbered
  from 0; its destination nodes are the first of its source nodes. A layer is called as
  \<open>layer(block, x)\<close> with one row of \<open>x\<close> per source node, and gives every
  destination node a row computed from the node's own row and the rows of the sources
  of the edges that enter it, in edge order: a layer "aggregates over all neighbors".
  The function that computes the row (for \<open>SAGEConv\<close>, from its weights) is the
  layer. A whole graph is passed to a layer as the block of all its nodes and edges.
\<close>

type_synonym conv = "real list \<Rightarrow> real list list \<Rightarrow> real list"

record block =
  num_src_nodes :: nat
  num_dst_nodes :: nat
  block_edges :: "(nat \<times> nat) list"

definition layer_call :: "conv \<Rightarrow> block \<Rightarrow> tensor \<Rightarrow> py_exception + tensor" where
  "layer_call layer b x =
     (if length x = num_src_nodes b
      then Inr (map (\<lambda>v. layer (x ! v)
                            (map (\<lambda>(u, w). x ! u) (filter (\<lambda>(u, w). w = v) (block_edges b))))
                    [0..<num_dst_nodes b])
      else Inl DGLError)"

definition graph_block :: "graph \<Rightarrow> block" where
  "graph_block g =
     \<lparr>num_src_nodes = num_nodes g, num_dst_nodes = num_nodes g, block_edges = edges g\<rparr>"

text \<open>\<open>F.relu\<close> on a tensor.\<close>

definition relu :: "tensor \<Rightarrow> tensor" where
  "relu x = map (map (max 0)) x"

text \<open>
  Notebook 2:
  \<^verbatim>\<open>
    class SAGE(nn.Module):
        def __init__(self, in_feats, n_hidden, n_layers):
            super().__init__()
            self.n_layers = n_layers
            self.n_hidden = n_hidden
            self.layers = nn.ModuleList()
            self.layers.append(dglnn.SAGEConv(in_feats, n_hidden, 'mean'))
            for i in range(1, n_layers):
                self.layers.append(dglnn.SAGEConv(n_hidden, n_hidden, 'mean'))

        def forward(self, blocks, x):
            for l, (layer, block) in enumerate(zip(self.layers, blocks)):
                x = layer(block, x)
                if l != self.n_layers - 1:
                    x = F.relu(x)
            return x
  \<close>
  \<open>SAGEConv i a b\<close> stands for the \<open>i\<close>-th layer the constructor creates, from
  \<open>a\<close> input features to \<open>b\<close> output features, with the weights it draws.
\<close>

record SAGE =
  n_layers :: int
  n_hidden :: nat
  layers :: "conv list"

definition SAGE_init :: "(nat \<Rightarrow> nat \<Rightarrow> nat \<Rightarrow> conv) \<Rightarrow> nat \<Rightarrow> nat \<Rightarrow> int \<Rightarrow> SAGE" where
  "SAGE_init SAGEConv in_feats hidden n =
     \<lparr>n_layers = n, n_hidden = hidden,
      layers = SAGEConv 0 in_feats hidden # map (\<lambda>i. SAGEConv i hidden hidden) [1..<nat n]\<rparr>"

fun forward_loop :: "int \<Rightarrow> (nat \<times> conv \<times> block) list \<Rightarrow> tensor \<Rightarrow> py_exception + tensor" where
  "forward_loop n [] x = Inr x"
| "forward_loop n ((l, layer, b) # rest) x =
     (case layer_call layer b x of
        Inl e \<Rightarrow> Inl e
      | Inr x1 \<Rightarrow> forward_loop n rest (if int l \<noteq> n - 1 then relu x1 else x1))"

definition SAGE_forward :: "SAGE \<Rightarrow> block list \<Rightarrow> tensor \<Rightarrow> py_exception + tensor" where
  "SAGE_forward self blocks x =
     forward_loop (n_layers self) (enumerate 0 (zip (layers self) blocks)) x"

subsection \<open>The data loader of the inference\<close>

text \<open>
  \<open>NodeDataLoader(graph, nodes, sampler, batch_size=batch_size, shuffle=False,
  drop_last=False, num_workers=0)\<close> with the sampler
  \<open>MultiLayerNeighborSampler([None])\<close> ("one layer at a time, taking all neighbors")
  yields, for every batch of \<open>batch_size\<close> consecutive nodes (the last batch may be
  shorter), the triple \<open>(input_nodes, output_nodes, blocks)\<close>: the output nodes are
  the batch, the one block holds every edge of the graph that enters an output node,
  and the input nodes are the block's source nodes, the output nodes first and then the
  other sources in order of first appearance.
\<close>

definition batches_of :: "nat \<Rightarrow> 'a list \<Rightarrow> 'a list list" where
  "batches_of bs xs = map (\<lambda>i. take bs (drop (i * bs) xs)) [0..<(length xs + bs - 1) div bs]"

definition node_index :: "nat list \<Rightarrow> nat \<Rightarrow> nat" where
  "node_index xs x = length (takeWhile (\<lambda>y. y \<noteq> x) xs)"

definition in_subgraph :: "graph \<Rightarrow> nat list \<Rightarrow> (nat \<times> nat) list" where
  "in_subgraph g seed_nodes = filter (\<lambda>(u, v). v \<in> set seed_nodes) (edges g)"

definition to_block :: "(nat \<times> nat) list \<Rightarrow> nat list \<Rightarrow> nat list \<times> block" where
  "to_block frontier dst_nodes =
     (let src_nodes = dst_nodes @ remdups (filter (\<lambda>u. u \<notin> set dst_nodes) (map fst frontier))
      in (src_nodes,
          \<lparr>num_src_nodes = length src_nodes, num_dst_nodes = length dst_nodes,
           block_edges = map (\<lambda>(u, v). (node_index src_nodes u, node_index dst_nodes v)) frontier\<rparr>))"

definition full_neighbor_batch :: "graph \<Rightarrow> nat list \<Rightarrow> nat list \<times> nat list \<times> block list" where
  "full_neighbor_batch g seed_nodes =
     (let (input_nodes, b) = to_block (in_subgraph g seed_nodes) seed_nodes
      in (input_nodes, seed_nodes, [b]))"

definition full_neighbor_loader ::
  "graph \<Rightarrow> nat list \<Rightarrow> int \<Rightarrow> py_exception + (nat list \<times> nat list \<times> block list) list" where
  "full_neighbor_loader g nodes batch_size =
     (if batch_size \<le> 0 then Inl ValueError
      else Inr (map (full_neighbor_batch g) (batches_of (nat batch_size) nodes)))"

subsection \<open>Tensor indexing\<close>

text \<open>\<open>x[idx]\<close> for a list of row indices.\<close>

definition index_rows :: "tensor \<Rightarrow> nat list \<Rightarrow> py_exception + tensor" where
  "index_rows x idx =
     (if list_all (\<lambda>i. i < length x) idx then Inr (map (\<lambda>i. x ! i) idx) else Inl IndexError)"

text \<open>
  \<open>out[idx] = rows\<close>, where \<open>out\<close> has rows of the given width: a single row, or rows
  of width 1, are broadcast; any other mismatch of shape raises.
\<close>

definition broadcast_rows :: "nat \<Rightarrow> nat \<Rightarrow> tensor \<Rightarrow> tensor option" where
  "broadcast_rows count width rows =
     (let wide = (if list_all (\<lambda>r. length r = width) rows then Some rows
                  else if list_all (\<lambda>r. length r = 1) rows
                  then Some (map (\<lambda>r. replicate width (hd r)) rows)
                  else None)
      in case wide of
           None \<Rightarrow> None
         | Some rs \<Rightarrow>
             if length rs = count then Some rs
             else if length rs = 1 then Some (replicate count (hd rs))
             else None)"

definition assign_rows :: "nat \<Rightarrow> tensor \<Rightarrow> nat list \<Rightarrow> tensor \<Rightarrow> py_exception + tensor" where
  "assign_rows width out idx rows =
     (if \<not> list_all (\<lambda>i. i < length out) idx then Inl IndexError
      else case broadcast_rows (length idx) width rows of
             None \<Rightarrow> Inl RuntimeError
           | Some rs \<Rightarrow> Inr (fold (\<lambda>(i, r) acc. acc[i := r]) (zip idx rs) out))"

subsection \<open>Inference\<close>

text \<open>
  Notebook 2:
  \<^verbatim>\<open>
    def inference(model, graph, input_features, batch_size):
        nodes = torch.arange(graph.number_of_nodes())
        sampler = dgl.dataloading.MultiLayerNeighborSampler([None])
        dataloader = dgl.dataloading.NodeDataLoader(
            graph, nodes, sampler, batch_size=batch_size,
            shuffle=False, drop_last=False, num_workers=0)
        with torch.no_grad():
            for l, layer in enumerate(model.layers):
                output_features = torch.zeros(graph.number_of_nodes(), model.n_hidden)
                for input_nodes, output_nodes, blocks in tqdm.tqdm(dataloader):
                    block = blocks[0].to(torch.device('cuda'))
                    x = input_features[input_nodes].cuda()
                    x = layer(block, x)
                    if l != model.n_layers - 1:
                        x = F.relu(x)
                    output_features[output_nodes] = x.cpu()
                input_features = output_features
        return output_features
  \<close>
  The inner loop runs over the batches of the loader and fills \<open>output_features\<close>;
  the outer loop runs over the layers. \<open>output_features\<close> is unbound until the first
  layer has run. The argument \<open>model\<close> is written \<open>sage\<close>. Moving tensors
  between devices, \<open>torch.no_grad()\<close> and the progress bar change no value.
\<close>

fun inference_batches ::
  "SAGE \<Rightarrow> nat \<Rightarrow> conv \<Rightarrow> tensor \<Rightarrow> (nat list \<times> nat list \<times> block list) list \<Rightarrow> tensor
     \<Rightarrow> py_exception + tensor" where
  "inference_batches sage l layer input_features [] output_features = Inr output_features"
| "inference_batches sage l layer input_features ((input_nodes, output_nodes, blocks) # rest)
       output_features =
     (case blocks of
        [] \<Rightarrow> Inl IndexError
      | b # _ \<Rightarrow>
          (case index_rows input_features input_nodes of
             Inl e \<Rightarrow> Inl e
           | Inr x \<Rightarrow>
               (case layer_call layer b x of
                  Inl e \<Rightarrow> Inl e
                | Inr x1 \<Rightarrow>
                    (case assign_rows (n_hidden sage) output_features output_nodes
                            (if int l \<noteq> n_layers sage - 1 then relu x1 else x1) of
                       Inl e \<Rightarrow> Inl e
                     | Inr out \<Rightarrow> inference_batches sage l layer input_features rest out))))"

fun inference_layers ::
  "SAGE \<Rightarrow> graph \<Rightarrow> (nat list \<times> nat list \<times> block list) list \<Rightarrow> (nat \<times> conv) list \<Rightarrow> tensor
     \<Rightarrow> tensor option \<Rightarrow> py_exception + tensor" where
  "inference_layers sage g dataloader [] input_features output_features =
     (case output_features of
        None \<Rightarrow> Inl UnboundLocalError
      | Some out \<Rightarrow> Inr out)"
| "inference_layers sage g dataloader ((l, layer) # rest) input_features output_features =
     (case inference_batches sage l layer input_features dataloader
             (zeros [number_of_nodes g, n_hidden sage]) of
        Inl e \<Rightarrow> Inl e
      | Inr out \<Rightarrow> inference_layers sage g dataloader rest out (Some out))"

definition inference :: "SAGE \<Rightarrow> graph \<Rightarrow> tensor \<Rightarrow> int \<Rightarrow> py_exception + tensor" where
  "inference sage g input_features batch_size =
     (let nodes = [0..<number_of_nodes g] in
      case full_neighbor_loader g nodes batch_size of
        Inl e \<Rightarrow> Inl e
      | Inr dataloader \<Rightarrow>
          inference_layers sage g dataloader (enumerate 0 (layers sage)) input_features None)"

chapter \<open>Verified properties\<close>

section \<open>The data loader partition\<close>

lemma py_slice_nonneg:
  assumes "0 \<le> a" and "a \<le> b" and "b \<le> int (length xs)"
  shows "py_slice xs a b = take (nat (b - a)) (drop (nat a) xs)"
  using assms by (simp add: py_slice_def slice_bound_def Let_def)

lemma partition_bounds:
  fixes w r :: int and n :: nat
  assumes "1 \<le> w" and "0 \<le> r" and "r < w"
  shows "0 \<le> (int n div w) * r"
    and "(int n div w) * r + int n div w \<le> int n"
proof -
  have ps: "0 \<le> int n div w"
    using assms(1) by (simp add: pos_imp_zdiv_nonneg_iff)
  show "0 \<le> (int n div w) * r"
    using ps assms(2) by simp
  have "(int n div w) * r + int n div w = (int n div w) * (r + 1)"
    by (simp add: algebra_simps)
  also have "\<dots> \<le> (int n div w) * w"
    using ps assms(3) by (intro mult_left_mono) auto
  also have "\<dots> \<le> int n"
    using assms(1) pos_mod_sign [of w "int n"] div_mult_mod_eq [of "int n" w] by linarith
  finally show "(int n div w) * r + int n div w \<le> int n" .
qed

lemma create_dataloader_slice:
  fixes w r :: int
  assumes "1 \<le> w" and "0 \<le> r" and "r < w"
  shows "create_dataloader r w g nids =
           NodeDataLoader_init g
             (take (length nids div nat w) (drop (nat r * (length nids div nat w)) nids))
             (MultiLayerNeighborSampler_init [4, 4, 4]) 1024 True False 0"
proof -
  let ?k = "length nids div nat w"
  have psn: "int (length nids) div w = int ?k"
    using assms(1) by (simp add: zdiv_int)
  have b: "0 \<le> int ?k * r" "int ?k * r + int ?k \<le> int (length nids)"
    using partition_bounds [OF assms, of "length nids"] unfolding psn by simp_all
  have sl: "py_slice nids (int ?k * r) (int ?k * r + int ?k) = take ?k (drop (nat (int ?k * r)) nids)"
    using py_slice_nonneg [of "int ?k * r" "int ?k * r + int ?k" nids] b by simp
  have off: "nat (int ?k * r) = nat r * ?k"
    using nat_mult_distrib [of "int ?k" r] by (simp add: mult.commute)
  have "w \<noteq> 0" using assms(1) by simp
  then have "create_dataloader r w g nids =
           NodeDataLoader_init g (py_slice nids (int ?k * r) (int ?k * r + int ?k))
             (MultiLayerNeighborSampler_init [4, 4, 4]) 1024 True False 0"
    unfolding create_dataloader_def Let_def psn by (simp only: if_False)
  then show ?thesis
    by (simp only: sl off)
qed

lemma slice_fits:
  fixes w r :: int
  assumes "0 \<le> r" and "r < w"
  shows "nat r * (length nids div nat w) + length nids div nat w \<le> length nids"
proof -
  let ?m = "length nids div nat w"
  have "Suc (nat r) \<le> nat w" using assms by simp
  then have "Suc (nat r) * ?m \<le> nat w * ?m" by (rule mult_le_mono1)
  also have "\<dots> \<le> length nids" by (simp add: mult.commute)
  finally show ?thesis by (simp add: add.commute)
qed

lemma create_dataloader_enough:
  fixes w r :: int
  assumes "1 \<le> w" and "0 \<le> r" and "r < w" and "nat w \<le> length nids"
  shows "create_dataloader r w g nids =
           Inr \<lparr>dl_graph = g,
                dl_nids = take (length nids div nat w)
                            (drop (nat r * (length nids div nat w)) nids),
                dl_sampler = MultiLayerNeighborSampler_init [4, 4, 4],
                dl_batch_size = 1024, dl_shuffle = True, dl_drop_last = False,
                dl_num_workers = 0\<rparr>"
    and "length (take (length nids div nat w) (drop (nat r * (length nids div nat w)) nids))
           = length nids div nat w"
    and "0 < length nids div nat w"
proof -
  let ?m = "length nids div nat w"
  show pos: "0 < ?m"
    using assms(1,4) by (simp add: div_greater_zero_iff)
  show len: "length (take ?m (drop (nat r * ?m) nids)) = ?m"
    using slice_fits [OF assms(2,3), of nids] by simp
  have "take ?m (drop (nat r * ?m) nids) \<noteq> []"
    using pos len by auto
  then show "create_dataloader r w g nids =
           Inr \<lparr>dl_graph = g, dl_nids = take ?m (drop (nat r * ?m) nids),
                dl_sampler = MultiLayerNeighborSampler_init [4, 4, 4],
                dl_batch_size = 1024, dl_shuffle = True, dl_drop_last = False,
                dl_num_workers = 0\<rparr>"
    unfolding create_dataloader_slice [OF assms(1-3)] NodeDataLoader_init_def by simp
qed

lemma create_dataloader_too_few:
  fixes w r :: int
  assumes "1 \<le> w" and "0 \<le> r" and "r < w" and "length nids < nat w"
  shows "create_dataloader r w g nids = Inl ValueError"
  unfolding create_dataloader_slice [OF assms(1-3)] NodeDataLoader_init_def
  using assms(4) by simp

lemma concat_slices:
  "concat (map (\<lambda>r. take m (drop (r * m) xs)) [0..<k]) = take (k * m) xs"
proof (induction k)
  case 0
  show ?case by simp
next
  case (Suc k)
  have "take (k * m + m) xs = take (k * m) xs @ take m (drop (k * m) xs)"
    by (rule take_add)
  with Suc show ?case by (simp add: add.commute)
qed

lemma slice_before_disjoint:
  assumes "distinct xs" and "i + m \<le> j"
  shows "set (take m (drop i xs)) \<inter> set (drop j xs) = {}"
proof -
  have "take m (drop i xs) = drop i (take (i + m) xs)"
    by (simp add: drop_take)
  then have "set (take m (drop i xs)) \<subseteq> set (take (i + m) xs)"
    by (simp add: set_drop_subset)
  also have "\<dots> \<subseteq> set (take j xs)"
    using assms(2) by (rule set_take_subset_set_take)
  finally have sub: "set (take m (drop i xs)) \<subseteq> set (take j xs)" .
  have "distinct (take j xs @ drop j xs)" using assms(1) by simp
  then have "set (take j xs) \<inter> set (drop j xs) = {}"
    unfolding distinct_append by (elim conjE)
  with sub show ?thesis by blast
qed

lemma slices_disjoint:
  assumes "distinct xs" and "r < r'"
  shows "set (take m (drop (r * m) xs)) \<inter> set (take m (drop (r' * m) xs)) = {}"
proof -
  have "Suc r \<le> r'" using assms(2) by simp
  then have "Suc r * m \<le> r' * m" by (rule mult_le_mono1)
  then have "r * m + m \<le> r' * m" by (simp add: add.commute)
  then have "set (take m (drop (r * m) xs)) \<inter> set (drop (r' * m) xs) = {}"
    using slice_before_disjoint [OF assms(1)] by blast
  moreover have "set (take m (drop (r' * m) xs)) \<subseteq> set (drop (r' * m) xs)"
    by (rule set_take_subset)
  ultimately show ?thesis by blast
qed

lemma worker_nids_eq:
  fixes w r :: int
  assumes "1 \<le> w" and "0 \<le> r" and "r < w"
  shows "worker_nids r w g nids =
           take (length nids div nat w) (drop (nat r * (length nids div nat w)) nids)"
proof (cases "nat w \<le> length nids")
  case True
  show ?thesis
    unfolding worker_nids_def create_dataloader_enough(1) [OF assms True] by simp
next
  case False
  then have few: "length nids < nat w" by simp
  show ?thesis
    unfolding worker_nids_def create_dataloader_too_few [OF assms few]
    using few by simp
qed

lemma leftover_length:
  fixes k :: nat
  shows "length (drop (k * (length xs div k)) xs) = length xs mod k"
  by (simp add: minus_mult_div_eq_mod)

text \<open>
  Claim C6, as amended. Let the world size be \<open>w \<ge> 1\<close>. When there are at least
  \<open>w\<close> node IDs, \<open>create_dataloader\<close> gives each rank \<open>r\<close> of \<open>0 .. w - 1\<close> a
  loader over the contiguous slice of \<open>len(nids) // w\<close> node IDs that starts at offset
  \<open>r * (len(nids) // w)\<close>, and the slice is not empty. When there are fewer than
  \<open>w\<close> node IDs every slice is empty and the call raises \<open>ValueError\<close> for every
  rank, so no rank iterates any node ID. In both cases the slices of the ranks, in rank
  order, followed by the last \<open>len(nids) mod w\<close> node IDs give back \<open>nids\<close>: those
  last IDs belong to no rank. When the node IDs are distinct, the slices of two
  different ranks share no node ID, and no rank's slice holds a node ID of the leftover
  tail.
\<close>

theorem create_dataloader_partition:
  fixes w :: int and nids :: "nat list"
  assumes "1 \<le> w"
  shows "(nat w \<le> length nids \<longrightarrow>
          (\<forall>r. 0 \<le> r \<and> r < w \<longrightarrow>
            (\<exists>dl. create_dataloader r w g nids = Inr dl \<and>
                  dl_nids dl = take (length nids div nat w)
                                 (drop (nat r * (length nids div nat w)) nids) \<and>
                  length (dl_nids dl) = length nids div nat w \<and>
                  0 < length (dl_nids dl))))
       \<and> (length nids < nat w \<longrightarrow>
          (\<forall>r. 0 \<le> r \<and> r < w \<longrightarrow> create_dataloader r w g nids = Inl ValueError))
       \<and> concat (map (\<lambda>r. worker_nids (int r) w g nids) [0..<nat w])
             @ drop (nat w * (length nids div nat w)) nids = nids
       \<and> length (drop (nat w * (length nids div nat w)) nids) = length nids mod nat w
       \<and> (distinct nids \<longrightarrow>
             (\<forall>r r'. 0 \<le> r \<and> r < r' \<and> r' < w \<longrightarrow>
                set (worker_nids r w g nids) \<inter> set (worker_nids r' w g nids) = {}) \<and>
             (\<forall>r. 0 \<le> r \<and> r < w \<longrightarrow>
                set (worker_nids r w g nids)
                  \<inter> set (drop (nat w * (length nids div nat w)) nids) = {}))"
proof -
  let ?m = "length nids div nat w"
  have A: "\<exists>dl. create_dataloader r w g nids = Inr dl \<and>
                  dl_nids dl = take ?m (drop (nat r * ?m) nids) \<and>
                  length (dl_nids dl) = ?m \<and> 0 < length (dl_nids dl)"
    if "nat w \<le> length nids" "0 \<le> r" "r < w" for r
    using create_dataloader_enough [OF assms that(2,3,1)] by simp
  have A': "create_dataloader r w g nids = Inl ValueError"
    if "length nids < nat w" "0 \<le> r" "r < w" for r
    using assms that(2,3,1) by (rule create_dataloader_too_few)
  have "map (\<lambda>r. worker_nids (int r) w g nids) [0..<nat w]
          = map (\<lambda>r. take ?m (drop (r * ?m) nids)) [0..<nat w]"
    using assms by (intro map_cong refl) (simp add: worker_nids_eq)
  then have B: "concat (map (\<lambda>r. worker_nids (int r) w g nids) [0..<nat w])
             @ drop (nat w * ?m) nids = nids"
    by (simp only: concat_slices append_take_drop_id)
  have C: "length (drop (nat w * ?m) nids) = length nids mod nat w"
    by (rule leftover_length)
  have D1: "set (worker_nids r w g nids) \<inter> set (worker_nids r' w g nids) = {}"
    if "distinct nids" "0 \<le> r" "r < r'" "r' < w" for r r'
  proof -
    have "nat r < nat r'" using that by simp
    then show ?thesis
      using that slices_disjoint [OF that(1), of "nat r" "nat r'" ?m] assms
      by (simp add: worker_nids_eq)
  qed
  have D2: "set (worker_nids r w g nids) \<inter> set (drop (nat w * ?m) nids) = {}"
    if "distinct nids" "0 \<le> r" "r < w" for r
  proof -
    have "Suc (nat r) \<le> nat w" using that by simp
    then have "Suc (nat r) * ?m \<le> nat w * ?m" by (rule mult_le_mono1)
    then have "nat r * ?m + ?m \<le> nat w * ?m" by (simp add: add.commute)
    then show ?thesis
      using slice_before_disjoint [OF that(1)] worker_nids_eq [OF assms that(2,3)]
      by simp
  qed
  show ?thesis
    using A A' B C D1 D2 by (intro conjI allI impI) blast+
qed

text \<open>
  Claim C6 as stated fails when there are fewer node IDs than ranks: with eight node
  IDs and nine ranks the slice of rank 0 has \<open>8 // 9 = 0\<close> node IDs, and the call
  raises instead of giving rank 0 a loader over it.
\<close>

theorem create_dataloader_empty_slice:
  "create_dataloader 0 9 \<lparr>num_nodes = 20, edges = []\<rparr> [10, 11, 12, 13, 14, 15, 16, 17]
     = Inl ValueError"
  by (simp add: create_dataloader_def NodeDataLoader_init_def py_slice_def slice_bound_def)

text \<open>
  The amended claim at \<open>w = 3\<close>: of eight node IDs each rank gets two and the last two
  are left over, the slices of ranks 0 and 2 share no node ID and the slice of rank 1
  has none of the leftover; of two node IDs no rank gets any and the call raises.
\<close>

theorem create_dataloader_partition_witness:
  "(1::int) \<le> 3
   \<and> (\<exists>dl. create_dataloader 1 3 \<lparr>num_nodes = 20, edges = []\<rparr> [10, 11, 12, 13, 14, 15, 16, 17] = Inr dl
           \<and> dl_nids dl = [12, 13])
   \<and> worker_nids 0 3 \<lparr>num_nodes = 20, edges = []\<rparr> [10, 11, 12, 13, 14, 15, 16, 17] = [10, 11]
   \<and> worker_nids 2 3 \<lparr>num_nodes = 20, edges = []\<rparr> [10, 11, 12, 13, 14, 15, 16, 17] = [14, 15]
   \<and> length (drop 6 [10, 11, 12, 13, 14, 15, 16, 17 :: nat]) = 2
   \<and> distinct [10, 11, 12, 13, 14, 15, 16, 17 :: nat]
   \<and> set (worker_nids 0 3 \<lparr>num_nodes = 20, edges = []\<rparr> [10, 11, 12, 13, 14, 15, 16, 17])
        \<inter> set (worker_nids 2 3 \<lparr>num_nodes = 20, edges = []\<rparr> [10, 11, 12, 13, 14, 15, 16, 17]) = {}
   \<and> set (worker_nids 1 3 \<lparr>num_nodes = 20, edges = []\<rparr> [10, 11, 12, 13, 14, 15, 16, 17])
        \<inter> set (drop 6 [10, 11, 12, 13, 14, 15, 16, 17]) = {}
   \<and> create_dataloader 1 3 \<lparr>num_nodes = 20, edges = []\<rparr> [10, 11] = Inl ValueError"
proof -
  let ?g = "\<lparr>num_nodes = 20, edges = []\<rparr>"
  let ?nids = "[10, 11, 12, 13, 14, 15, 16, 17 :: nat]"
  have h: "(1::int) \<le> 3" by simp
  note t = create_dataloader_partition [OF h, of ?nids ?g, THEN conjunct1, rule_format, of 1]
  note u = create_dataloader_partition [OF h, of "[10, 11]" ?g,
      THEN conjunct2, THEN conjunct1, rule_format, of 1]
  have len: "length ?nids div nat 3 = 2" by simp
  from t have a: "\<exists>dl. create_dataloader 1 3 ?g ?nids = Inr dl \<and> dl_nids dl = [12, 13]"
    unfolding len by auto
  from u have e: "create_dataloader 1 3 ?g [10, 11] = Inl ValueError"
    by simp
  have b: "worker_nids 0 3 ?g ?nids = [10, 11]"
    by (simp add: worker_nids_def create_dataloader_def NodeDataLoader_init_def py_slice_def
        slice_bound_def)
  have c: "worker_nids 2 3 ?g ?nids = [14, 15]"
    by (simp add: worker_nids_def create_dataloader_def NodeDataLoader_init_def py_slice_def
        slice_bound_def)
  have l: "length (drop 6 ?nids) = 2"
    using create_dataloader_partition [OF h, of ?nids ?g,
      THEN conjunct2, THEN conjunct2, THEN conjunct2, THEN conjunct1]
    by simp
  have d: "distinct ?nids" by simp
  note dj = create_dataloader_partition [OF h, of ?nids ?g,
      THEN conjunct2, THEN conjunct2, THEN conjunct2, THEN conjunct2, rule_format, OF d]
  have d1: "set (worker_nids 0 3 ?g ?nids) \<inter> set (worker_nids 2 3 ?g ?nids) = {}"
    using dj [THEN conjunct1, rule_format, of 0 2] by simp
  have d2: "set (worker_nids 1 3 ?g ?nids) \<inter> set (drop 6 ?nids) = {}"
    using dj [THEN conjunct2, rule_format, of 1] by simp
  show ?thesis
    using h a b c l d d1 d2 e by (intro conjI)
qed

section \<open>The evaluation call of the unsupervised loop\<close>

lemma evaluate_two_arguments: "evaluate body [emb, node_labels] = Inl TypeError"
  by (simp add: evaluate_def bind_positional_def evaluate_params_def)

lemma unsupervised_epoch_raises:
  "unsupervised_epoch fit infer body node_labels epoch st
     = Raised TypeError (st\<lparr>model := fit epoch (model st)\<rparr>)"
  by (simp add: unsupervised_epoch_def evaluate_two_arguments Let_def)

lemma unsupervised_training_raises:
  "unsupervised_training fit infer body node_labels m0
     = Raised TypeError ((init_state m0)\<lparr>model := fit 0 m0\<rparr>)"
proof -
  have "[0..<10] = 0 # [Suc 0..<10]"
    by (simp add: upt_conv_Cons)
  then show ?thesis
    by (simp add: unsupervised_training_def unsupervised_epoch_raises init_state_def)
qed

text \<open>
  Claim C3. The unsupervised loop calls \<open>evaluate\<close> with two arguments, and
  \<open>evaluate\<close> has five required parameters: the call raises \<open>TypeError\<close>
  whatever the arguments and the body are. So the evaluation step of an epoch, from any
  state, raises \<open>TypeError\<close> with \<open>best_accuracy\<close> and \<open>model.pt\<close> as they were
  before it: no accuracy is computed and no checkpoint is saved. The loop itself stops
  in its first epoch, with \<open>best_accuracy = 0\<close> and nothing saved.
\<close>

theorem evaluate_call_raises:
  "evaluate body [emb, node_labels] = Inl TypeError
   \<and> unsupervised_epoch fit infer body node_labels epoch st
         = Raised TypeError (st\<lparr>model := fit epoch (model st)\<rparr>)
   \<and> unsupervised_training fit infer body node_labels m0
         = Raised TypeError \<lparr>model = fit 0 m0, best_accuracy = 0, model_pt = None, save_epochs = []\<rparr>"
  by (simp add: evaluate_two_arguments unsupervised_epoch_raises unsupervised_training_raises
        init_state_def)

section \<open>Best accuracy and the saved checkpoint\<close>

lemma train_epochs_Suc:
  "train_epochs rank fit validate (Suc n) m0
     = train_epoch rank fit validate n (train_epochs rank fit validate n m0)"
  by (simp add: train_epochs_def)

lemma model_train_epoch: "model (train_epoch rank fit validate e st) = fit e (model st)"
  by (simp add: train_epoch_def save_if_best_def Let_def)

lemma model_train_epochs: "model (train_epochs rank fit validate n m0) = fold fit [0..<n] m0"
proof (induction n)
  case 0
  show ?case by (simp add: train_epochs_def init_state_def)
next
  case (Suc n)
  then show ?case by (simp add: train_epochs_Suc model_train_epoch)
qed

lemma train_epoch_rank0:
  "train_epoch 0 fit validate n (train_epochs 0 fit validate n m0)
     = save_if_best (epoch_accuracy fit validate m0 n) n
         ((train_epochs 0 fit validate n m0)\<lparr>model := epoch_model fit m0 n\<rparr>)"
  by (simp add: train_epoch_def Let_def epoch_accuracy_def epoch_model_def model_train_epochs)

lemma train_epoch_other_rank:
  "rank \<noteq> 0 \<Longrightarrow> train_epoch rank fit validate n st = st\<lparr>model := fit n (model st)\<rparr>"
  by (simp add: train_epoch_def Let_def)

lemma epoch_step_cases:
  fixes rank :: int
  shows "(rank = 0 \<and> best_accuracy (train_epochs rank fit validate n m0) < epoch_accuracy fit validate m0 n
            \<longrightarrow> save_epochs (train_epochs rank fit validate (Suc n) m0)
                   = save_epochs (train_epochs rank fit validate n m0) @ [n]
                \<and> model_pt (train_epochs rank fit validate (Suc n) m0) = Some (epoch_model fit m0 n)
                \<and> best_accuracy (train_epochs rank fit validate (Suc n) m0) = epoch_accuracy fit validate m0 n)
       \<and> (\<not> (rank = 0 \<and> best_accuracy (train_epochs rank fit validate n m0) < epoch_accuracy fit validate m0 n)
            \<longrightarrow> save_epochs (train_epochs rank fit validate (Suc n) m0)
                   = save_epochs (train_epochs rank fit validate n m0)
                \<and> model_pt (train_epochs rank fit validate (Suc n) m0)
                   = model_pt (train_epochs rank fit validate n m0)
                \<and> best_accuracy (train_epochs rank fit validate (Suc n) m0)
                   = best_accuracy (train_epochs rank fit validate n m0))"
proof (cases "rank = 0")
  case True
  then show ?thesis
    by (simp add: train_epochs_Suc train_epoch_rank0 save_if_best_def)
next
  case False
  then show ?thesis
    by (simp add: train_epochs_Suc train_epoch_other_rank)
qed

lemma best_accuracy_train_epoch:
  "best_accuracy st \<le> best_accuracy (train_epoch rank fit validate e st)"
  by (simp add: train_epoch_def save_if_best_def Let_def)

lemma best_accuracy_mono:
  "best_accuracy (train_epochs rank fit validate n m0)
     \<le> best_accuracy (train_epochs rank fit validate (Suc n) m0)"
  by (simp only: train_epochs_Suc best_accuracy_train_epoch)

text \<open>The invariant of rank 0's loop is kept by an epoch.\<close>

lemma checkpoint_step:
  assumes le: "\<forall>j<n. epoch_accuracy fit validate m0 j \<le> best_accuracy st"
    and pt: "case model_pt st of
         None \<Rightarrow> best_accuracy st = 0 \<and> save_epochs st = []
       | Some m \<Rightarrow>
           save_epochs st \<noteq> [] \<and> last (save_epochs st) < n \<and>
           m = epoch_model fit m0 (last (save_epochs st)) \<and>
           best_accuracy st = epoch_accuracy fit validate m0 (last (save_epochs st))"
  defines "st' \<equiv> save_if_best (epoch_accuracy fit validate m0 n) n (st\<lparr>model := epoch_model fit m0 n\<rparr>)"
  shows "(\<forall>j<Suc n. epoch_accuracy fit validate m0 j \<le> best_accuracy st') \<and>
       (case model_pt st' of
         None \<Rightarrow> best_accuracy st' = 0 \<and> save_epochs st' = []
       | Some m \<Rightarrow>
           save_epochs st' \<noteq> [] \<and> last (save_epochs st') < Suc n \<and>
           m = epoch_model fit m0 (last (save_epochs st')) \<and>
           best_accuracy st' = epoch_accuracy fit validate m0 (last (save_epochs st')))"
proof (cases "best_accuracy st < epoch_accuracy fit validate m0 n")
  case True
  have "\<forall>j<Suc n. epoch_accuracy fit validate m0 j \<le> epoch_accuracy fit validate m0 n"
    using le True by (auto simp: less_Suc_eq)
  with True show ?thesis
    by (simp add: st'_def save_if_best_def)
next
  case False
  have "\<forall>j<Suc n. epoch_accuracy fit validate m0 j \<le> best_accuracy st"
    using le False by (auto simp: less_Suc_eq)
  moreover have "last (save_epochs st) < Suc n" if "model_pt st = Some m" for m
    using pt that by simp
  ultimately show ?thesis
    using False pt
    by (simp add: st'_def save_if_best_def split: option.splits)
qed

lemma checkpoint_invariant:
  "(\<forall>j<n. epoch_accuracy fit validate m0 j \<le> best_accuracy (train_epochs 0 fit validate n m0)) \<and>
   (case model_pt (train_epochs 0 fit validate n m0) of
      None \<Rightarrow> best_accuracy (train_epochs 0 fit validate n m0) = 0
               \<and> save_epochs (train_epochs 0 fit validate n m0) = []
    | Some m \<Rightarrow>
        save_epochs (train_epochs 0 fit validate n m0) \<noteq> [] \<and>
        last (save_epochs (train_epochs 0 fit validate n m0)) < n \<and>
        m = epoch_model fit m0 (last (save_epochs (train_epochs 0 fit validate n m0))) \<and>
        best_accuracy (train_epochs 0 fit validate n m0)
          = epoch_accuracy fit validate m0 (last (save_epochs (train_epochs 0 fit validate n m0))))"
proof (induction n)
  case 0
  show ?case by (simp add: train_epochs_def init_state_def)
next
  case (Suc n)
  show ?case
    unfolding train_epochs_Suc train_epoch_rank0
    using Suc by (intro checkpoint_step) simp_all
qed

lemma other_ranks_never_save:
  "rank \<noteq> 0 \<Longrightarrow>
     train_epochs rank fit validate n m0 = (init_state m0)\<lparr>model := fold fit [0..<n] m0\<rparr>"
proof (induction n)
  case 0
  show ?case by (simp add: train_epochs_def init_state_def)
next
  case (Suc n)
  then show ?case by (simp add: train_epochs_Suc train_epoch_other_rank)
qed

text \<open>
  Claim C5. In the training loop of notebook 3, for every rank, every number \<open>n\<close> of
  epochs run so far and every behaviour of the training steps and of the validation
  pass: \<open>best_accuracy\<close> does not decrease in epoch \<open>n\<close>; \<open>torch.save\<close> runs
  in epoch \<open>n\<close> (writing that epoch's state dict, and raising \<open>best_accuracy\<close> to
  that epoch's accuracy) exactly when the process is rank 0 and the epoch's validation
  accuracy is strictly above the best so far, and otherwise \<open>model.pt\<close> and
  \<open>best_accuracy\<close> stay as they were; after \<open>n\<close> epochs, a checkpoint saved by
  rank 0 is the state dict of the epoch \<open>e < n\<close> of the latest save, whose accuracy is
  \<open>best_accuracy\<close> and is at least the accuracy of every epoch run so far; if rank 0
  has saved nothing, no epoch so far had an accuracy above 0; the other ranks never
  save. The loop of notebook 2 has the same update, and never reaches it: it stops at
  the \<open>TypeError\<close> of its first evaluation with \<open>best_accuracy = 0\<close> and nothing
  saved.
\<close>

theorem best_checkpoint:
  "best_accuracy (train_epochs rank fit validate n m0)
     \<le> best_accuracy (train_epochs rank fit validate (Suc n) m0)
   \<and> (rank = 0 \<and> best_accuracy (train_epochs rank fit validate n m0) < epoch_accuracy fit validate m0 n
        \<longrightarrow> save_epochs (train_epochs rank fit validate (Suc n) m0)
               = save_epochs (train_epochs rank fit validate n m0) @ [n]
            \<and> model_pt (train_epochs rank fit validate (Suc n) m0) = Some (epoch_model fit m0 n)
            \<and> best_accuracy (train_epochs rank fit validate (Suc n) m0) = epoch_accuracy fit validate m0 n)
   \<and> (\<not> (rank = 0 \<and> best_accuracy (train_epochs rank fit validate n m0) < epoch_accuracy fit validate m0 n)
        \<longrightarrow> save_epochs (train_epochs rank fit validate (Suc n) m0)
               = save_epochs (train_epochs rank fit validate n m0)
            \<and> model_pt (train_epochs rank fit validate (Suc n) m0)
               = model_pt (train_epochs rank fit validate n m0)
            \<and> best_accuracy (train_epochs rank fit validate (Suc n) m0)
               = best_accuracy (train_epochs rank fit validate n m0))
   \<and> (\<forall>m. model_pt (train_epochs 0 fit validate n m0) = Some m \<longrightarrow>
          (\<exists>e<n. e = last (save_epochs (train_epochs 0 fit validate n m0)) \<and>
                 m = epoch_model fit m0 e \<and>
                 best_accuracy (train_epochs 0 fit validate n m0) = epoch_accuracy fit validate m0 e \<and>
                 (\<forall>j<n. epoch_accuracy fit validate m0 j \<le> epoch_accuracy fit validate m0 e)))
   \<and> (model_pt (train_epochs 0 fit validate n m0) = None \<longrightarrow>
          save_epochs (train_epochs 0 fit validate n m0) = [] \<and>
          (\<forall>j<n. epoch_accuracy fit validate m0 j \<le> 0))
   \<and> (rank \<noteq> 0 \<longrightarrow> model_pt (train_epochs rank fit validate n m0) = None
                    \<and> best_accuracy (train_epochs rank fit validate n m0) = 0)
   \<and> unsupervised_training fit infer body node_labels m0
         = Raised TypeError \<lparr>model = fit 0 m0, best_accuracy = 0, model_pt = None, save_epochs = []\<rparr>"
proof -
  let ?st = "train_epochs 0 fit validate n m0"
  note inv = checkpoint_invariant [of n fit validate m0]
  have saved: "\<exists>e<n. e = last (save_epochs ?st) \<and> m = epoch_model fit m0 e \<and>
                 best_accuracy ?st = epoch_accuracy fit validate m0 e \<and>
                 (\<forall>j<n. epoch_accuracy fit validate m0 j \<le> epoch_accuracy fit validate m0 e)"
    if "model_pt ?st = Some m" for m
    using inv that by auto
  have unsaved: "save_epochs ?st = [] \<and> (\<forall>j<n. epoch_accuracy fit validate m0 j \<le> 0)"
    if "model_pt ?st = None"
    using inv that by auto
  have others: "model_pt (train_epochs rank fit validate n m0) = None
                  \<and> best_accuracy (train_epochs rank fit validate n m0) = 0" if "rank \<noteq> 0"
    using that by (simp add: other_ranks_never_save init_state_def)
  show ?thesis
    using best_accuracy_mono [of rank fit validate n m0]
      epoch_step_cases [of rank fit validate n m0] saved unsaved others
      unsupervised_training_raises [of fit infer body node_labels m0]
    by (simp only: init_state_def) (simp only: simp_thms train_state.simps, blast)
qed

text \<open>
  The theorem on a run of rank 0 whose epochs score 0.5, 0.7 and 0.5: epochs 0 and 1
  save, epoch 2 does not, and \<open>model.pt\<close> stays the state dict of epoch 1.
\<close>

theorem best_checkpoint_witness:
  "train_epochs 0 (\<lambda>e m. Suc m) (\<lambda>e m. if m = 2 then 7 / 10 else 1 / 2) 1 0
      = \<lparr>model = 1, best_accuracy = 1 / 2, model_pt = Some 1, save_epochs = [0]\<rparr>
   \<and> train_epochs 0 (\<lambda>e m. Suc m) (\<lambda>e m. if m = 2 then 7 / 10 else 1 / 2) 2 0
      = \<lparr>model = 2, best_accuracy = 7 / 10, model_pt = Some 2, save_epochs = [0, 1]\<rparr>
   \<and> train_epochs 0 (\<lambda>e m. Suc m) (\<lambda>e m. if m = 2 then 7 / 10 else 1 / 2) 3 0
      = \<lparr>model = 3, best_accuracy = 7 / 10, model_pt = Some 2, save_epochs = [0, 1]\<rparr>
   \<and> epoch_accuracy (\<lambda>e m. Suc m) (\<lambda>e m. if m = 2 then 7 / 10 else 1 / 2) 0 1 = 7 / 10
   \<and> epoch_accuracy (\<lambda>e m. Suc m) (\<lambda>e m. if m = 2 then 7 / 10 else 1 / 2) 0 2 = 1 / 2
   \<and> best_accuracy (train_epochs 0 (\<lambda>e m. Suc m) (\<lambda>e m. if m = 2 then 7 / 10 else 1 / 2) 1 0)
       < epoch_accuracy (\<lambda>e m. Suc m) (\<lambda>e m. if m = 2 then 7 / 10 else 1 / 2) 0 1
   \<and> save_epochs (train_epochs 0 (\<lambda>e m. Suc m) (\<lambda>e m. if m = 2 then 7 / 10 else 1 / 2) 2 0)
       = save_epochs (train_epochs 0 (\<lambda>e m. Suc m) (\<lambda>e m. if m = 2 then 7 / 10 else 1 / 2) 1 0) @ [1]
   \<and> save_epochs (train_epochs 0 (\<lambda>e m. Suc m) (\<lambda>e m. if m = 2 then 7 / 10 else 1 / 2) 3 0)
       = save_epochs (train_epochs 0 (\<lambda>e m. Suc m) (\<lambda>e m. if m = 2 then 7 / 10 else 1 / 2) 2 0)"
proof -
  let ?F = "\<lambda>(e::nat) (m::nat). Suc m"
  let ?V = "\<lambda>(e::nat) (m::nat). if m = 2 then 7 / 10 else (1 / 2 :: real)"
  have e1: "train_epochs 0 ?F ?V 1 0
      = \<lparr>model = 1, best_accuracy = 1 / 2, model_pt = Some 1, save_epochs = [0]\<rparr>"
    by (simp add: train_epochs_def train_epoch_def save_if_best_def init_state_def Let_def)
  have e2: "train_epochs 0 ?F ?V 2 0
      = \<lparr>model = 2, best_accuracy = 7 / 10, model_pt = Some 2, save_epochs = [0, 1]\<rparr>"
    by (simp add: train_epochs_def train_epoch_def save_if_best_def init_state_def Let_def upt_rec)
  have a1: "epoch_accuracy ?F ?V 0 1 = 7 / 10"
    by (simp add: epoch_accuracy_def epoch_model_def upt_rec)
  have a2: "epoch_accuracy ?F ?V 0 2 = 1 / 2"
    by (simp add: epoch_accuracy_def epoch_model_def upt_rec)
  have lt: "best_accuracy (train_epochs 0 ?F ?V 1 0) < epoch_accuracy ?F ?V 0 1"
    unfolding e1 a1 by simp
  have nlt: "\<not> (best_accuracy (train_epochs 0 ?F ?V 2 0) < epoch_accuracy ?F ?V 0 2)"
    unfolding e2 a2 by simp
  have three: "Suc 2 = (3::nat)" by simp
  note t1 = best_checkpoint [of 0 ?F ?V 1 0, THEN conjunct2, THEN conjunct1]
  note t2 = best_checkpoint [of 0 ?F ?V 2 0, THEN conjunct2, THEN conjunct2, THEN conjunct1]
  have s2: "save_epochs (train_epochs 0 ?F ?V 2 0) = save_epochs (train_epochs 0 ?F ?V 1 0) @ [1]"
    using t1 lt unfolding Suc_1 by blast
  have s3: "save_epochs (train_epochs 0 ?F ?V 3 0) = save_epochs (train_epochs 0 ?F ?V 2 0)"
    and p3: "model_pt (train_epochs 0 ?F ?V 3 0) = model_pt (train_epochs 0 ?F ?V 2 0)"
    and b3: "best_accuracy (train_epochs 0 ?F ?V 3 0) = best_accuracy (train_epochs 0 ?F ?V 2 0)"
    using t2 nlt unfolding three by blast+
  have m3: "model (train_epochs 0 ?F ?V 3 0) = 3"
    by (simp add: model_train_epochs upt_rec)
  have e3: "train_epochs 0 ?F ?V 3 0
      = \<lparr>model = 3, best_accuracy = 7 / 10, model_pt = Some 2, save_epochs = [0, 1]\<rparr>"
    using s3 p3 b3 m3 by (intro train_state.equality) (simp_all add: e2)
  show ?thesis
    using e1 e2 e3 a1 a2 lt s2 s3 by (intro conjI)
qed

section \<open>The negative sampler\<close>

lemma length_repeat_interleave: "length (repeat_interleave xs k) = k * length xs"
  by (induction xs) (simp_all add: repeat_interleave_def)

lemma repeat_interleave_map:
  "repeat_interleave (map f xs) k = concat (map (\<lambda>x. replicate k (f x)) xs)"
  by (simp add: repeat_interleave_def comp_def)

lemma sampler_weights:
  "ns_weights (NegativeSampler_init g k)
     = map (\<lambda>v. real (in_degree g v) powr (3 / 4)) [0..<num_nodes g]"
  by (simp add: NegativeSampler_init_def in_degrees_def comp_def)

lemma sampler_weights_nonneg:
  "\<forall>w \<in> set (ns_weights (NegativeSampler_init g k)). 0 \<le> w"
  by (auto simp: sampler_weights)

lemma sum_list_pos_iff:
  fixes ws :: "real list"
  assumes "\<forall>w \<in> set ws. 0 \<le> w"
  shows "0 < sum_list ws \<longleftrightarrow> (\<exists>w \<in> set ws. 0 < w)"
proof -
  have "0 \<le> sum_list ws"
    using assms by (simp add: sum_list_nonneg)
  moreover have "sum_list ws = 0 \<longleftrightarrow> (\<forall>w \<in> set ws. w = 0)"
    using assms by (simp add: sum_list_nonneg_eq_0_iff)
  ultimately show ?thesis
    using assms by (metis less_eq_real_def order_less_irrefl)
qed

lemma multinomial_prob_pos_iff:
  fixes ws :: "real list"
  assumes "\<forall>w \<in> set ws. 0 \<le> w" and "0 < sum_list ws"
    and "list_all (\<lambda>d. d < length ws) drawn"
  shows "0 < multinomial_prob ws drawn \<longleftrightarrow> list_all (\<lambda>d. 0 < ws ! d) drawn"
  using assms(3)
proof (induction drawn)
  case Nil
  then show ?case by (simp add: multinomial_prob_def)
next
  case (Cons d drawn)
  then have d: "d < length ws" and rest: "list_all (\<lambda>d. d < length ws) drawn"
    by simp_all
  have nn: "0 \<le> ws ! d" using assms(1) d by simp
  have nn': "0 \<le> multinomial_prob ws drawn"
    unfolding multinomial_prob_def using rest assms(1,2)
    by (intro prod_list_nonneg) (auto simp: list_all_iff)
  have step: "multinomial_prob ws (d # drawn)
                = ws ! d / sum_list ws * multinomial_prob ws drawn"
    by (simp add: multinomial_prob_def)
  have q: "0 < ws ! d / sum_list ws \<longleftrightarrow> 0 < ws ! d"
    using assms(2) by (simp add: zero_less_divide_iff)
  have "0 < multinomial_prob ws (d # drawn)
          \<longleftrightarrow> 0 < ws ! d / sum_list ws \<and> 0 < multinomial_prob ws drawn"
    unfolding step zero_less_mult_iff using nn nn' assms(2)
    by (auto simp: divide_less_0_iff)
  also have "\<dots> \<longleftrightarrow> 0 < ws ! d \<and> list_all (\<lambda>d. 0 < ws ! d) drawn"
    unfolding q Cons.IH [OF rest] ..
  finally show ?case by simp
qed

lemma multinomial_Inr_iff:
  fixes ws :: "real list"
  assumes "\<forall>w \<in> set ws. 0 \<le> w"
  shows "multinomial ws n (Inr drawn) \<longleftrightarrow>
           0 < n \<and> length drawn = n \<and> list_all (\<lambda>d. d < length ws \<and> 0 < ws ! d) drawn"
proof -
  have noneg: "\<not> list_ex (\<lambda>w. w < 0) ws"
    using assms by (auto simp: list_ex_iff)
  show ?thesis
  proof (cases "0 < sum_list ws")
    case True
    have "multinomial ws n (Inr drawn) \<longleftrightarrow>
            0 < n \<and> length drawn = n \<and> list_all (\<lambda>d. d < length ws) drawn \<and>
            0 < multinomial_prob ws drawn"
      using True noneg by (auto simp: multinomial_def)
    also have "\<dots> \<longleftrightarrow> 0 < n \<and> length drawn = n \<and> list_all (\<lambda>d. d < length ws) drawn \<and>
            list_all (\<lambda>d. 0 < ws ! d) drawn"
      using multinomial_prob_pos_iff [OF assms True] by blast
    also have "\<dots> \<longleftrightarrow> 0 < n \<and> length drawn = n \<and>
            list_all (\<lambda>d. d < length ws \<and> 0 < ws ! d) drawn"
      by (auto simp: list_all_iff)
    finally show ?thesis .
  next
    case False
    then have none: "\<not> (\<exists>w \<in> set ws. 0 < w)"
      using sum_list_pos_iff [OF assms] by simp
    have l: "\<not> multinomial ws n (Inr drawn)"
      using False by (simp add: multinomial_def)
    have r: "\<not> (0 < n \<and> length drawn = n \<and>
            list_all (\<lambda>d. d < length ws \<and> 0 < ws ! d) drawn)"
    proof
      assume a: "0 < n \<and> length drawn = n \<and>
            list_all (\<lambda>d. d < length ws \<and> 0 < ws ! d) drawn"
      then obtain d rest where "drawn = d # rest" by (cases drawn) auto
      with a have "d < length ws" "0 < ws ! d" by simp_all
      then have "\<exists>w \<in> set ws. 0 < w" using nth_mem by blast
      with none show False by simp
    qed
    from l r show ?thesis by simp
  qed
qed

lemma multinomial_Inl_iff:
  fixes ws :: "real list"
  assumes "\<forall>w \<in> set ws. 0 \<le> w"
  shows "multinomial ws n (Inl e) \<longleftrightarrow>
           e = RuntimeError \<and> (n = 0 \<or> list_all (\<lambda>w. w = 0) ws)"
proof -
  have noneg: "\<not> list_ex (\<lambda>w. w < 0) ws"
    using assms by (auto simp: list_ex_iff)
  have "\<not> 0 < sum_list ws \<longleftrightarrow> (\<forall>w \<in> set ws. \<not> 0 < w)"
    unfolding sum_list_pos_iff [OF assms] by blast
  moreover have "(\<forall>w \<in> set ws. \<not> 0 < w) \<longleftrightarrow> (\<forall>w \<in> set ws. w = 0)"
    using assms by (metis less_eq_real_def order_less_irrefl)
  ultimately have "sum_list ws \<le> 0 \<longleftrightarrow> list_all (\<lambda>w. w = 0) ws"
    by (simp add: list_all_iff not_less)
  then show ?thesis
    using noneg by (auto simp: multinomial_def)
qed

lemma zero_weights_iff:
  "list_all (\<lambda>w. w = 0) (ns_weights (NegativeSampler_init g k))
     \<longleftrightarrow> list_all (\<lambda>v. in_degree g v = 0) [0..<num_nodes g]"
  by (simp add: sampler_weights list_all_iff)

lemma positive_weights_iff:
  "list_all (\<lambda>d. d < length (ns_weights (NegativeSampler_init g k))
                 \<and> 0 < ns_weights (NegativeSampler_init g k) ! d) dst
     \<longleftrightarrow> list_all (\<lambda>v. v < num_nodes g \<and> 0 < in_degree g v) dst"
  by (auto simp: sampler_weights list_all_iff)

lemma sampler_prob:
  assumes "list_all (\<lambda>v. v < num_nodes g) dst"
  shows "multinomial_prob (ns_weights (NegativeSampler_init g k)) dst
           = prod_list (map (\<lambda>v. real (in_degree g v) powr (3 / 4)
                / sum_list (map (\<lambda>u. real (in_degree g u) powr (3 / 4)) [0..<num_nodes g])) dst)"
proof -
  have "map (\<lambda>d. ns_weights (NegativeSampler_init g k) ! d
                    / sum_list (ns_weights (NegativeSampler_init g k))) dst
        = map (\<lambda>v. real (in_degree g v) powr (3 / 4)
                / sum_list (map (\<lambda>u. real (in_degree g u) powr (3 / 4)) [0..<num_nodes g])) dst"
    using assms by (intro map_cong refl) (simp add: sampler_weights list_all_iff)
  then show ?thesis
    by (simp only: multinomial_prob_def)
qed

lemma NegativeSampler_call_valid:
  assumes "list_all (\<lambda>e. e < length (edges g)) eids"
  shows "NegativeSampler_call self g eids (Inr (src, dst)) \<longleftrightarrow>
           src = concat (map (\<lambda>e. replicate (ns_k self) (fst (edges g ! e))) eids) \<and>
           multinomial (ns_weights self) (ns_k self * length eids) (Inr dst)"
    and "NegativeSampler_call self g eids (Inl e) \<longleftrightarrow>
           multinomial (ns_weights self) (ns_k self * length eids) (Inl e)"
  using assms
  by (simp_all add: NegativeSampler_call_def find_edges_def Let_def
      length_repeat_interleave repeat_interleave_map)

lemma NegativeSampler_call_invalid:
  assumes "\<not> list_all (\<lambda>e. e < length (edges g)) eids"
  shows "\<not> NegativeSampler_call self g eids (Inr (src, dst))"
    and "NegativeSampler_call self g eids (Inl e) \<longleftrightarrow> e = DGLError"
  using assms by (auto simp: NegativeSampler_call_def find_edges_def)

text \<open>
  Claim C1, as amended. Let the sampler be built from a graph \<open>g0\<close> with \<open>k\<close>
  negatives per edge; its weights are \<open>in_degree(v) ** 0.75\<close> for the nodes \<open>v\<close>
  of \<open>g0\<close>. \<open>NegativeSampler.__call__(g, eids)\<close> can return \<open>(src, dst)\<close> exactly
  when \<open>k\<close> is positive, \<open>eids\<close> is not empty and holds only edge IDs of \<open>g\<close>,
  \<open>src\<close> is the sources in \<open>g\<close> of the requested edges, each \<open>k\<close> times in a row,
  and \<open>dst\<close> is any list of \<open>k * len(eids)\<close> nodes of \<open>g0\<close> of positive in-degree:
  repeats are allowed, and nothing relates a destination to its source, so the sampler
  does not look up whether \<open>g\<close> has that edge. The call raises \<open>DGLError\<close> exactly
  when \<open>eids\<close> has an ID that is not an edge of \<open>g\<close>; otherwise it raises
  \<open>RuntimeError\<close> exactly when \<open>k\<close> is zero, \<open>eids\<close> is empty or no node of \<open>g0\<close>
  has an entering edge. It always has an outcome. The probability that the draw gives
  \<open>dst\<close> is the product over its elements \<open>v\<close> of
  \<open>in_degree(v) ** 0.75 / sum(in_degree(u) ** 0.75 for u in g0)\<close>, whatever the sources.
\<close>

theorem negative_sampler_pairs:
  "ns_weights (NegativeSampler_init g0 k)
      = map (\<lambda>v. real (in_degree g0 v) powr (3 / 4)) [0..<num_nodes g0]
   \<and> (NegativeSampler_call (NegativeSampler_init g0 k) g eids (Inr (src, dst)) \<longleftrightarrow>
        0 < k \<and> eids \<noteq> [] \<and> list_all (\<lambda>e. e < length (edges g)) eids \<and>
        src = concat (map (\<lambda>e. replicate k (fst (edges g ! e))) eids) \<and>
        length dst = k * length eids \<and>
        list_all (\<lambda>v. v < num_nodes g0 \<and> 0 < in_degree g0 v) dst)
   \<and> (NegativeSampler_call (NegativeSampler_init g0 k) g eids (Inl e) \<longleftrightarrow>
        (if list_all (\<lambda>e. e < length (edges g)) eids
         then e = RuntimeError \<and>
              (k = 0 \<or> eids = [] \<or> list_all (\<lambda>v. in_degree g0 v = 0) [0..<num_nodes g0])
         else e = DGLError))
   \<and> (\<exists>outcome. NegativeSampler_call (NegativeSampler_init g0 k) g eids outcome)
   \<and> (list_all (\<lambda>v. v < num_nodes g0) dst \<longrightarrow>
        multinomial_prob (ns_weights (NegativeSampler_init g0 k)) dst
          = prod_list (map (\<lambda>v. real (in_degree g0 v) powr (3 / 4)
              / sum_list (map (\<lambda>u. real (in_degree g0 u) powr (3 / 4)) [0..<num_nodes g0]))
              dst))"
proof -
  let ?self = "NegativeSampler_init g0 k"
  let ?valid = "list_all (\<lambda>e. e < length (edges g)) eids"
  have kk: "ns_k ?self = k" by (simp add: NegativeSampler_init_def)
  have A: "ns_weights ?self = map (\<lambda>v. real (in_degree g0 v) powr (3 / 4)) [0..<num_nodes g0]"
    by (rule sampler_weights)
  have B: "NegativeSampler_call ?self g eids (Inr (src, dst)) \<longleftrightarrow>
        0 < k \<and> eids \<noteq> [] \<and> ?valid \<and>
        src = concat (map (\<lambda>e. replicate k (fst (edges g ! e))) eids) \<and>
        length dst = k * length eids \<and>
        list_all (\<lambda>v. v < num_nodes g0 \<and> 0 < in_degree g0 v) dst" for src dst
  proof (cases ?valid)
    case True
    show ?thesis
      unfolding NegativeSampler_call_valid(1) [OF True] kk
        multinomial_Inr_iff [OF sampler_weights_nonneg] positive_weights_iff
      using True by auto
  next
    case False
    then show ?thesis
      using NegativeSampler_call_invalid(1) [OF False] by simp
  qed
  have C: "NegativeSampler_call ?self g eids (Inl e) \<longleftrightarrow>
        (if ?valid
         then e = RuntimeError \<and>
              (k = 0 \<or> eids = [] \<or> list_all (\<lambda>v. in_degree g0 v = 0) [0..<num_nodes g0])
         else e = DGLError)" for e
  proof (cases ?valid)
    case True
    show ?thesis
      unfolding NegativeSampler_call_valid(2) [OF True] kk
        multinomial_Inl_iff [OF sampler_weights_nonneg] zero_weights_iff
      using True by auto
  next
    case False
    then show ?thesis
      using NegativeSampler_call_invalid(2) [OF False] by simp
  qed
  have D: "\<exists>outcome. NegativeSampler_call ?self g eids outcome"
  proof (cases "?valid \<and> 0 < k \<and> eids \<noteq> []
                 \<and> \<not> list_all (\<lambda>v. in_degree g0 v = 0) [0..<num_nodes g0]")
    case True
    then obtain v where v: "v < num_nodes g0" "0 < in_degree g0 v"
      by (auto simp: list_all_iff)
    have "NegativeSampler_call ?self g eids
            (Inr (concat (map (\<lambda>e. replicate k (fst (edges g ! e))) eids),
                  replicate (k * length eids) v))"
      unfolding B using True v by (simp add: list_all_iff)
    then show ?thesis by blast
  next
    case False
    show ?thesis
    proof (cases ?valid)
      case True
      with False have "NegativeSampler_call ?self g eids (Inl RuntimeError)"
        unfolding C by auto
      then show ?thesis by blast
    next
      case False
      then have "NegativeSampler_call ?self g eids (Inl DGLError)"
        unfolding C by simp
      then show ?thesis by blast
    qed
  qed
  have E: "list_all (\<lambda>v. v < num_nodes g0) dst \<longrightarrow>
        multinomial_prob (ns_weights ?self) dst
          = prod_list (map (\<lambda>v. real (in_degree g0 v) powr (3 / 4)
              / sum_list (map (\<lambda>u. real (in_degree g0 u) powr (3 / 4)) [0..<num_nodes g0]))
              dst)"
    using sampler_prob by blast
  show ?thesis
    using A B C D E by (intro conjI)
qed

text \<open>
  Claim C1 as stated fails. On the graph with the single edge \<open>0 \<rightarrow> 1\<close>, node 1 is
  the only node of positive weight, so the call for edge 0 returns the pair
  \<open>(0, 1)\<close>, which is an edge of the graph, and it does so with probability 1.
\<close>

theorem negative_sampler_existing_edge:
  "NegativeSampler_call (NegativeSampler_init \<lparr>num_nodes = 2, edges = [(0, 1)]\<rparr> 1)
      \<lparr>num_nodes = 2, edges = [(0, 1)]\<rparr> [0] (Inr ([0], [1]))
   \<and> multinomial_prob (ns_weights (NegativeSampler_init \<lparr>num_nodes = 2, edges = [(0, 1)]\<rparr> 1)) [1] = 1
   \<and> has_edge_between \<lparr>num_nodes = 2, edges = [(0, 1)]\<rparr> 0 1"
  by (simp add: NegativeSampler_call_def NegativeSampler_init_def find_edges_def
      repeat_interleave_def multinomial_def multinomial_prob_def in_degrees_def in_degree_def
      has_edge_between_def upt_rec)

text \<open>
  The amended claim on the graph with the edges \<open>0 \<rightarrow> 1\<close>, \<open>1 \<rightarrow> 2\<close> and
  \<open>0 \<rightarrow> 2\<close>, with two negatives per edge, for the edges 0 and 2: the destinations
  \<open>[2, 1, 2, 2]\<close> are a possible result, with a repeat and with the existing edges
  \<open>0 \<rightarrow> 2\<close> and \<open>0 \<rightarrow> 1\<close>; node 0 has no entering edge and is never drawn; no
  requested edge raises \<open>RuntimeError\<close>, an unknown edge ID raises \<open>DGLError\<close>; and
  the weights of the nodes are 0, 1 and \<open>2 ** 0.75\<close>.
\<close>

theorem negative_sampler_pairs_witness:
  "NegativeSampler_call (NegativeSampler_init \<lparr>num_nodes = 3, edges = [(0, 1), (1, 2), (0, 2)]\<rparr> 2) \<lparr>num_nodes = 3, edges = [(0, 1), (1, 2), (0, 2)]\<rparr> [0, 2] (Inr ([0, 0, 0, 0], [2, 1, 2, 2]))
   \<and> \<not> NegativeSampler_call (NegativeSampler_init \<lparr>num_nodes = 3, edges = [(0, 1), (1, 2), (0, 2)]\<rparr> 2) \<lparr>num_nodes = 3, edges = [(0, 1), (1, 2), (0, 2)]\<rparr> [0, 2] (Inr ([0, 0, 0, 0], [2, 0, 2, 2]))
   \<and> \<not> NegativeSampler_call (NegativeSampler_init \<lparr>num_nodes = 3, edges = [(0, 1), (1, 2), (0, 2)]\<rparr> 2) \<lparr>num_nodes = 3, edges = [(0, 1), (1, 2), (0, 2)]\<rparr> [0, 2] (Inr ([0, 0, 0, 0], [2, 1, 2]))
   \<and> NegativeSampler_call (NegativeSampler_init \<lparr>num_nodes = 3, edges = [(0, 1), (1, 2), (0, 2)]\<rparr> 2) \<lparr>num_nodes = 3, edges = [(0, 1), (1, 2), (0, 2)]\<rparr> [] (Inl RuntimeError)
   \<and> NegativeSampler_call (NegativeSampler_init \<lparr>num_nodes = 3, edges = [(0, 1), (1, 2), (0, 2)]\<rparr> 2) \<lparr>num_nodes = 3, edges = [(0, 1), (1, 2), (0, 2)]\<rparr> [5] (Inl DGLError)
   \<and> ns_weights (NegativeSampler_init \<lparr>num_nodes = 3, edges = [(0, 1), (1, 2), (0, 2)]\<rparr> 2) = [0, 1, 2 powr (3 / 4)]
   \<and> list_all (\<lambda>v. v < num_nodes \<lparr>num_nodes = 3, edges = [(0, 1), (1, 2), (0, 2)]\<rparr>) [2, 1]
   \<and> multinomial_prob (ns_weights (NegativeSampler_init \<lparr>num_nodes = 3, edges = [(0, 1), (1, 2), (0, 2)]\<rparr> 2)) [2, 1]
       = 2 powr (3 / 4) / (1 + 2 powr (3 / 4)) * (1 / (1 + 2 powr (3 / 4)))"
proof -
  have deg: "in_degree \<lparr>num_nodes = 3, edges = [(0, 1), (1, 2), (0, 2)]\<rparr> 0 = 0" "in_degree \<lparr>num_nodes = 3, edges = [(0, 1), (1, 2), (0, 2)]\<rparr> 1 = 1" "in_degree \<lparr>num_nodes = 3, edges = [(0, 1), (1, 2), (0, 2)]\<rparr> 2 = 2"
    by (simp_all add: in_degree_def)
  have nodes: "[0..<num_nodes \<lparr>num_nodes = 3, edges = [(0, 1), (1, 2), (0, 2)]\<rparr>] = [0, 1, 2]"
    by (simp add: upt_rec)
  have a: "NegativeSampler_call (NegativeSampler_init \<lparr>num_nodes = 3, edges = [(0, 1), (1, 2), (0, 2)]\<rparr> 2) \<lparr>num_nodes = 3, edges = [(0, 1), (1, 2), (0, 2)]\<rparr> [0, 2] (Inr ([0, 0, 0, 0], [2, 1, 2, 2]))"
    using negative_sampler_pairs [where ?g0.0 = "\<lparr>num_nodes = 3, edges = [(0, 1), (1, 2), (0, 2)]\<rparr>" and k = 2 and g = "\<lparr>num_nodes = 3, edges = [(0, 1), (1, 2), (0, 2)]\<rparr>" and eids = "[0, 2]"
        and src = "[0, 0, 0, 0]" and dst = "[2, 1, 2, 2]",
        THEN conjunct2, THEN conjunct1]
    by (simp add: in_degree_def numeral_2_eq_2)
  have b: "\<not> NegativeSampler_call (NegativeSampler_init \<lparr>num_nodes = 3, edges = [(0, 1), (1, 2), (0, 2)]\<rparr> 2) \<lparr>num_nodes = 3, edges = [(0, 1), (1, 2), (0, 2)]\<rparr> [0, 2] (Inr ([0, 0, 0, 0], [2, 0, 2, 2]))"
    using negative_sampler_pairs [where ?g0.0 = "\<lparr>num_nodes = 3, edges = [(0, 1), (1, 2), (0, 2)]\<rparr>" and k = 2 and g = "\<lparr>num_nodes = 3, edges = [(0, 1), (1, 2), (0, 2)]\<rparr>" and eids = "[0, 2]"
        and src = "[0, 0, 0, 0]" and dst = "[2, 0, 2, 2]",
        THEN conjunct2, THEN conjunct1]
    by (simp add: in_degree_def numeral_2_eq_2)
  have c: "\<not> NegativeSampler_call (NegativeSampler_init \<lparr>num_nodes = 3, edges = [(0, 1), (1, 2), (0, 2)]\<rparr> 2) \<lparr>num_nodes = 3, edges = [(0, 1), (1, 2), (0, 2)]\<rparr> [0, 2] (Inr ([0, 0, 0, 0], [2, 1, 2]))"
    using negative_sampler_pairs [where ?g0.0 = "\<lparr>num_nodes = 3, edges = [(0, 1), (1, 2), (0, 2)]\<rparr>" and k = 2 and g = "\<lparr>num_nodes = 3, edges = [(0, 1), (1, 2), (0, 2)]\<rparr>" and eids = "[0, 2]"
        and src = "[0, 0, 0, 0]" and dst = "[2, 1, 2]",
        THEN conjunct2, THEN conjunct1]
    by (simp add: in_degree_def numeral_2_eq_2)
  have d: "NegativeSampler_call (NegativeSampler_init \<lparr>num_nodes = 3, edges = [(0, 1), (1, 2), (0, 2)]\<rparr> 2) \<lparr>num_nodes = 3, edges = [(0, 1), (1, 2), (0, 2)]\<rparr> [] (Inl RuntimeError)"
    using negative_sampler_pairs [where ?g0.0 = "\<lparr>num_nodes = 3, edges = [(0, 1), (1, 2), (0, 2)]\<rparr>" and k = 2 and g = "\<lparr>num_nodes = 3, edges = [(0, 1), (1, 2), (0, 2)]\<rparr>" and eids = "[]"
        and e = RuntimeError,
        THEN conjunct2, THEN conjunct2, THEN conjunct1]
    by simp
  have e: "NegativeSampler_call (NegativeSampler_init \<lparr>num_nodes = 3, edges = [(0, 1), (1, 2), (0, 2)]\<rparr> 2) \<lparr>num_nodes = 3, edges = [(0, 1), (1, 2), (0, 2)]\<rparr> [5] (Inl DGLError)"
    using negative_sampler_pairs [where ?g0.0 = "\<lparr>num_nodes = 3, edges = [(0, 1), (1, 2), (0, 2)]\<rparr>" and k = 2 and g = "\<lparr>num_nodes = 3, edges = [(0, 1), (1, 2), (0, 2)]\<rparr>" and eids = "[5]"
        and e = DGLError,
        THEN conjunct2, THEN conjunct2, THEN conjunct1]
    by simp
  have f: "ns_weights (NegativeSampler_init \<lparr>num_nodes = 3, edges = [(0, 1), (1, 2), (0, 2)]\<rparr> 2) = [0, 1, 2 powr (3 / 4)]"
    using negative_sampler_pairs [where ?g0.0 = "\<lparr>num_nodes = 3, edges = [(0, 1), (1, 2), (0, 2)]\<rparr>" and k = 2, THEN conjunct1]
    unfolding nodes by (simp add: in_degree_def)
  have h: "list_all (\<lambda>v. v < num_nodes \<lparr>num_nodes = 3, edges = [(0, 1), (1, 2), (0, 2)]\<rparr>) [2, 1]"
    by simp
  have p: "multinomial_prob (ns_weights (NegativeSampler_init \<lparr>num_nodes = 3, edges = [(0, 1), (1, 2), (0, 2)]\<rparr> 2)) [2, 1]
       = 2 powr (3 / 4) / (1 + 2 powr (3 / 4)) * (1 / (1 + 2 powr (3 / 4)))"
    using negative_sampler_pairs [where ?g0.0 = "\<lparr>num_nodes = 3, edges = [(0, 1), (1, 2), (0, 2)]\<rparr>" and k = 2 and dst = "[2, 1]",
        THEN conjunct2, THEN conjunct2, THEN conjunct2, THEN conjunct2, rule_format, OF h]
    unfolding nodes by (simp add: in_degree_def)
  show ?thesis
    using a b c d e f h p by (intro conjI)
qed

section \<open>The distributed notebook\<close>

subsection \<open>Distributed tensors\<close>

lemma DistTensor_getitem_in_range:
  assumes "0 \<le> start" and "start \<le> stop" and "stop \<le> int (length (dt_rows arr))"
  shows "DistTensor_getitem arr start stop
           = Inr (take (nat (stop - start)) (drop (nat start) (dt_rows arr)))"
  using assms by (auto simp: DistTensor_getitem_def)

lemma DistTensor_getitem_rows:
  assumes "DistTensor_getitem arr start stop = Inr rows"
  shows "set rows \<subseteq> set (dt_rows arr)"
  using assms
  by (auto simp: DistTensor_getitem_def split: if_splits dest: in_set_takeD in_set_dropD)

lemma zero_rows:
  "dt_rows (DistTensor_init (n # rest) dt None) = replicate n (replicate (prod_list rest) 0)"
  by (simp add: DistTensor_init_def zeros_def num_rows_def row_size_def)

text \<open>
  Claim C10. The constructor takes a shape, a dtype and an optional init function. A
  tensor of shape \<open>(n, ...)\<close> built without an init function holds \<open>n\<close> rows of
  zeros, as many in a row as the remaining dimensions multiply to. Reading
  \<open>arr[start:stop]\<close> with \<open>0 \<le> start \<le> stop \<le> n\<close> returns exactly
  \<open>stop - start\<close> such rows of zeros, and whatever slice is read from it has only
  rows of zeros. A tensor built with \<open>init_func\<close> holds \<open>init_func(shape, dtype)\<close>,
  and a slice within its rows returns those rows of that value. Shape and dtype are
  kept as given.
\<close>

theorem DistTensor_values:
  "dt_rows (DistTensor_init (n # rest) dt None) = replicate n (replicate (prod_list rest) 0)
   \<and> (0 \<le> start \<and> start \<le> stop \<and> stop \<le> int n \<longrightarrow>
        DistTensor_getitem (DistTensor_init (n # rest) dt None) start stop
          = Inr (replicate (nat (stop - start)) (replicate (prod_list rest) 0)))
   \<and> (DistTensor_getitem (DistTensor_init (n # rest) dt None) start stop = Inr rows \<longrightarrow>
        rows = replicate (length rows) (replicate (prod_list rest) 0))
   \<and> dt_rows (DistTensor_init shape dt (Some init)) = init shape dt
   \<and> (0 \<le> start \<and> start \<le> stop \<and> stop \<le> int (length (init shape dt)) \<longrightarrow>
        DistTensor_getitem (DistTensor_init shape dt (Some init)) start stop
          = Inr (take (nat (stop - start)) (drop (nat start) (init shape dt))))
   \<and> dt_shape (DistTensor_init shape dt init_func) = shape
   \<and> dt_dtype (DistTensor_init shape dt init_func) = dt"
proof -
  let ?z = "replicate (prod_list rest) (0::real)"
  let ?arr = "DistTensor_init (n # rest) dt None"
  have A: "DistTensor_getitem ?arr start stop = Inr (replicate (nat (stop - start)) ?z)"
    if "0 \<le> start \<and> start \<le> stop \<and> stop \<le> int n"
  proof -
    have "nat (stop - start) \<le> n - nat start" using that by linarith
    then have "take (nat (stop - start)) (drop (nat start) (replicate n ?z))
                 = replicate (nat (stop - start)) ?z"
      by (simp add: min_def)
    then show ?thesis
      using that DistTensor_getitem_in_range [of start stop ?arr]
      by (simp add: zero_rows)
  qed
  have B: "rows = replicate (length rows) ?z"
    if "DistTensor_getitem ?arr start stop = Inr rows"
  proof -
    have "set rows \<subseteq> {?z}"
      using DistTensor_getitem_rows [OF that] by (auto simp: zero_rows)
    then show ?thesis
      by (simp add: replicate_length_same subset_iff)
  qed
  have C: "dt_rows (DistTensor_init shape dt (Some init)) = init shape dt"
    by (simp add: DistTensor_init_def)
  have D: "DistTensor_getitem (DistTensor_init shape dt (Some init)) start stop
          = Inr (take (nat (stop - start)) (drop (nat start) (init shape dt)))"
    if "0 \<le> start \<and> start \<le> stop \<and> stop \<le> int (length (init shape dt))"
    using that DistTensor_getitem_in_range [of start stop "DistTensor_init shape dt (Some init)"]
    by (simp add: C)
  have E: "dt_shape (DistTensor_init shape dt init_func) = shape"
    and F: "dt_dtype (DistTensor_init shape dt init_func) = dt"
    by (simp_all add: DistTensor_init_def)
  show ?thesis
    using zero_rows [of n rest dt] A B C D E F by blast
qed

text \<open>
  The theorem on the notebook's reads: \<open>arr[0:10]\<close> of a zero tensor of shape
  \<open>(12,)\<close> is ten rows holding one zero each, and a slice of a tensor built with an
  init function is the slice of what the function returned.
\<close>

theorem DistTensor_values_witness:
  "DistTensor_getitem (DistTensor_init [12] Float32 None) 0 10
     = Inr [[0], [0], [0], [0], [0], [0], [0], [0], [0], [0]]
   \<and> [[0], [0], [0], [0], [0], [0], [0], [0], [0], [0]] = replicate 10 [0 :: real]
   \<and> DistTensor_getitem (DistTensor_init [3] Float32 (Some (\<lambda>shape dt. [[5], [6], [7]]))) 1 3
     = Inr [[6], [7]]"
proof -
  note t = DistTensor_values [where n = 12 and rest = "[]" and dt = Float32 and start = 0
      and stop = 10]
  note u = DistTensor_values [where shape = "[3]" and dt = Float32 and start = 1 and stop = 3
      and init = "\<lambda>shape dt. [[5], [6], [7]]"]
  have ten: "replicate (nat (10 - 0)) (replicate (prod_list []) (0::real))
               = [[0], [0], [0], [0], [0], [0], [0], [0], [0], [0]]"
    by (simp add: numeral_eq_Suc)
  have "DistTensor_getitem (DistTensor_init [12] Float32 None) 0 10
          = Inr (replicate (nat (10 - 0)) (replicate (prod_list []) 0))"
    using t by simp
  then have a: "DistTensor_getitem (DistTensor_init [12] Float32 None) 0 10
     = Inr [[0], [0], [0], [0], [0], [0], [0], [0], [0], [0]]"
    unfolding ten .
  note v = DistTensor_values [where n = 12 and rest = "[]" and dt = Float32 and start = 0
      and stop = 10 and rows = "[[0], [0], [0], [0], [0], [0], [0], [0], [0], [0]]",
      THEN conjunct2, THEN conjunct2, THEN conjunct1, rule_format, OF a]
  have c: "[[0], [0], [0], [0], [0], [0], [0], [0], [0], [0]] = replicate 10 [0 :: real]"
    using v by (simp add: numeral_eq_Suc)
  have b: "DistTensor_getitem (DistTensor_init [3] Float32 (Some (\<lambda>shape dt. [[5], [6], [7]]))) 1 3
     = Inr [[6], [7]]"
    using u by (simp add: numeral_2_eq_2)
  show ?thesis using a c b by (intro conjI)
qed

subsection \<open>Sparse updates keep the other rows\<close>

lemma length_sparse_update: "length (sparse_update rule table grads) = length table"
  unfolding sparse_update_def
  by (induction grads arbitrary: table) (auto split: prod.splits)

lemma sparse_update_other_row:
  "j \<notin> fst ` set grads \<Longrightarrow> sparse_update rule table grads ! j = table ! j"
  unfolding sparse_update_def
  by (induction grads arbitrary: table) (auto split: prod.splits)

subsection \<open>What the cells do to the graph\<close>

lemma run_cell_graph:
  assumes "c \<noteq> AssignNdata" and "run_cell init rule c nb = Inr nb'"
  shows "nb_g nb' = nb_g nb"
  using assms by (cases c) (auto split: sum.splits option.splits)

lemma run_cell_assign:
  "run_cell init rule AssignNdata nb
     = Inr (nb\<lparr>nb_g := (nb_g nb)\<lparr>dist_ndata := (dist_ndata (nb_g nb))(''new_data'' \<mapsto> nb_arr nb)\<rparr>\<rparr>)"
  by (simp add: ndata_setitem_def)

lemma run_cells_append:
  "run_cells init rule (cs @ ds) nb =
     (case run_cells init rule cs nb of Inl e \<Rightarrow> Inl e | Inr nb' \<Rightarrow> run_cells init rule ds nb')"
  by (induction cs arbitrary: nb) (auto split: sum.splits)

lemma run_cells_graph:
  assumes "AssignNdata \<notin> set cs" and "run_cells init rule cs nb = Inr nb'"
  shows "nb_g nb' = nb_g nb"
  using assms
proof (induction cs arbitrary: nb)
  case Nil
  then show ?case by simp
next
  case (Cons c cs)
  from Cons.prems(2) obtain nb1 where
    c: "run_cell init rule c nb = Inr nb1" and cs: "run_cells init rule cs nb1 = Inr nb'"
    by (auto split: sum.splits)
  have "nb_g nb1 = nb_g nb"
    using Cons.prems(1) c by (intro run_cell_graph [of c]) auto
  moreover have "nb_g nb' = nb_g nb1"
    using Cons.prems(1) cs by (intro Cons.IH) auto
  ultimately show ?case by simp
qed

lemma run_cell_arr:
  assumes "c \<noteq> CreateArr" and "c \<noteq> CreateArrInit" and "run_cell init rule c nb = Inr nb'"
  shows "nb_arr nb' = nb_arr nb"
  using assms by (cases c) (auto split: sum.splits option.splits)

lemma notebook_graph:
  assumes "run_cells init rule notebook_cells nb = Inr nb'"
  shows "nb_g nb' = (nb_g nb)\<lparr>dist_ndata := (dist_ndata (nb_g nb))(''new_data'' \<mapsto>
            DistTensor_init [dist_num_nodes (nb_g nb)] Float32 (Some init))\<rparr>"
proof -
  let ?pre = "[PrintCounts, PrintNdataKeys, PrintTrainMask, PrintTrainMaskSlice, PrintOrigId,
      PrintEdataKeys, CreateArr, ShowArr]"
  let ?post = "[CreateEmb, TrainStep, PrintEmb]"
  have split: "notebook_cells = ?pre @ [CreateArrInit, ShowArr, AssignNdata] @ ?post"
    by (simp add: notebook_cells_def)
  from assms obtain nb1 nb2 where
    pre: "run_cells init rule ?pre nb = Inr nb1" and
    mid: "run_cells init rule [CreateArrInit, ShowArr, AssignNdata] nb1 = Inr nb2" and
    post: "run_cells init rule ?post nb2 = Inr nb'"
    unfolding split run_cells_append by (auto split: sum.splits)
  have g1: "nb_g nb1 = nb_g nb"
    using pre by (intro run_cells_graph [of ?pre]) auto
  have g2: "nb_g nb2 = (nb_g nb1)\<lparr>dist_ndata := (dist_ndata (nb_g nb1))(''new_data'' \<mapsto>
            DistTensor_init [dist_num_nodes (nb_g nb1)] Float32 (Some init))\<rparr>"
    using mid by (auto simp: ndata_setitem_def split: sum.splits)
  have g3: "nb_g nb' = nb_g nb2"
    using post by (intro run_cells_graph [of ?post]) auto
  show ?thesis
    by (simp only: g3 g2 g1)
qed

text \<open>
  Claim C2, as amended. Every cell of the distributed notebook other than
  \<open>g.ndata['new_data'] = arr\<close> leaves the distributed graph as it was. That cell
  sets the node-data entry \<open>new_data\<close> to \<open>arr\<close> and changes no other node-data
  entry, no edge-data entry and neither count. So after the whole notebook the node
  data is the loaded node data plus \<open>new_data\<close>, holding the tensor built with the
  init function, and the edge data and the counts are unchanged.
\<close>

theorem notebook_graph_frame:
  "(c \<noteq> AssignNdata \<longrightarrow> run_cell init rule c nb = Inr nb' \<longrightarrow> nb_g nb' = nb_g nb)
   \<and> (\<exists>nb1. run_cell init rule AssignNdata nb = Inr nb1 \<and>
          dist_ndata (nb_g nb1) = (dist_ndata (nb_g nb))(''new_data'' \<mapsto> nb_arr nb) \<and>
          (\<forall>name. name \<noteq> ''new_data'' \<longrightarrow> dist_ndata (nb_g nb1) name = dist_ndata (nb_g nb) name) \<and>
          dist_edata (nb_g nb1) = dist_edata (nb_g nb) \<and>
          dist_num_nodes (nb_g nb1) = dist_num_nodes (nb_g nb) \<and>
          dist_num_edges (nb_g nb1) = dist_num_edges (nb_g nb))
   \<and> (run_cells init rule notebook_cells nb = Inr nb2 \<longrightarrow>
          dist_ndata (nb_g nb2) = (dist_ndata (nb_g nb))(''new_data'' \<mapsto>
             DistTensor_init [dist_num_nodes (nb_g nb)] Float32 (Some init)) \<and>
          dist_edata (nb_g nb2) = dist_edata (nb_g nb) \<and>
          dist_num_nodes (nb_g nb2) = dist_num_nodes (nb_g nb) \<and>
          dist_num_edges (nb_g nb2) = dist_num_edges (nb_g nb))"
proof (intro conjI impI)
  assume "c \<noteq> AssignNdata" and "run_cell init rule c nb = Inr nb'"
  then show "nb_g nb' = nb_g nb" by (rule run_cell_graph)
next
  show "\<exists>nb1. run_cell init rule AssignNdata nb = Inr nb1 \<and>
          dist_ndata (nb_g nb1) = (dist_ndata (nb_g nb))(''new_data'' \<mapsto> nb_arr nb) \<and>
          (\<forall>name. name \<noteq> ''new_data'' \<longrightarrow> dist_ndata (nb_g nb1) name = dist_ndata (nb_g nb) name) \<and>
          dist_edata (nb_g nb1) = dist_edata (nb_g nb) \<and>
          dist_num_nodes (nb_g nb1) = dist_num_nodes (nb_g nb) \<and>
          dist_num_edges (nb_g nb1) = dist_num_edges (nb_g nb)"
    unfolding run_cell_assign by simp
next
  assume "run_cells init rule notebook_cells nb = Inr nb2"
  then have g: "nb_g nb2 = (nb_g nb)\<lparr>dist_ndata := (dist_ndata (nb_g nb))(''new_data'' \<mapsto>
            DistTensor_init [dist_num_nodes (nb_g nb)] Float32 (Some init))\<rparr>"
    by (rule notebook_graph)
  show "dist_ndata (nb_g nb2) = (dist_ndata (nb_g nb))(''new_data'' \<mapsto>
             DistTensor_init [dist_num_nodes (nb_g nb)] Float32 (Some init))"
    and "dist_edata (nb_g nb2) = dist_edata (nb_g nb)"
    and "dist_num_nodes (nb_g nb2) = dist_num_nodes (nb_g nb)"
    and "dist_num_edges (nb_g nb2) = dist_num_edges (nb_g nb)"
    unfolding g by simp_all
qed


text \<open>
  Claim C2 as stated fails: on a graph whose node data has no entry \<open>new_data\<close>, the
  cell \<open>g.ndata['new_data'] = arr\<close> adds that entry.
\<close>

theorem ndata_assignment_adds_entry:
  "dist_ndata (nb_g \<lparr>nb_g = \<lparr>dist_num_nodes = 12, dist_num_edges = 0,
                            dist_ndata = Map.empty, dist_edata = Map.empty\<rparr>,
                     nb_arr = DistTensor_init [12] Float32 None,
                     nb_emb = \<lparr>emb_table = [], emb_trace = []\<rparr>\<rparr>) ''new_data'' = None
   \<and> (case run_cell (\<lambda>shape dt. zeros shape) (\<lambda>row gr. row) AssignNdata
              \<lparr>nb_g = \<lparr>dist_num_nodes = 12, dist_num_edges = 0,
                       dist_ndata = Map.empty, dist_edata = Map.empty\<rparr>,
                nb_arr = DistTensor_init [12] Float32 None,
                nb_emb = \<lparr>emb_table = [], emb_trace = []\<rparr>\<rparr> of
         Inl e \<Rightarrow> None
       | Inr nb \<Rightarrow> dist_ndata (nb_g nb) ''new_data'')
       = Some (DistTensor_init [12] Float32 None)"
  by (simp add: ndata_setitem_def)

text \<open>
  The notebook reads \<open>[0:10]\<close> of its tensors, so it runs only on a graph of at least
  ten nodes: on four nodes the first slice raises.
\<close>

lemma notebook_small_graph_raises:
  "run_cells (\<lambda>shape dt. zeros shape) (\<lambda>row gr. row) notebook_cells
          \<lparr>nb_g = \<lparr>dist_num_nodes = 4, dist_num_edges = 0,
                dist_ndata = [''train_mask'' \<mapsto> DistTensor_init [4] Bool8 None,
                              ''orig_id'' \<mapsto> DistTensor_init [4] Int64 None],
                dist_edata = Map.empty\<rparr>,
            nb_arr = DistTensor_init [0] Float32 None,
            nb_emb = \<lparr>emb_table = [], emb_trace = []\<rparr>\<rparr> = Inl IndexError"
  by (simp add: notebook_cells_def DistTensor_getitem_def DistTensor_init_def zeros_def
      num_rows_def)

text \<open>
  The amended claim on a graph of twelve nodes with \<open>train_mask\<close> and \<open>orig_id\<close>:
  the cell that creates \<open>arr\<close> leaves the graph alone, and the whole notebook runs
  and ends with \<open>new_data\<close> added, \<open>orig_id\<close> and the edge data as loaded.
\<close>

theorem notebook_graph_frame_witness:
  "run_cell (\<lambda>shape dt. zeros shape) (\<lambda>row gr. row) CreateArr
       \<lparr>nb_g = \<lparr>dist_num_nodes = 12, dist_num_edges = 0,
                dist_ndata = [''train_mask'' \<mapsto> DistTensor_init [12] Bool8 None,
                              ''orig_id'' \<mapsto> DistTensor_init [12] Int64 None],
                dist_edata = Map.empty\<rparr>,
         nb_arr = DistTensor_init [0] Float32 None,
         nb_emb = \<lparr>emb_table = [], emb_trace = []\<rparr>\<rparr>
     = Inr \<lparr>nb_g = \<lparr>dist_num_nodes = 12, dist_num_edges = 0,
                dist_ndata = [''train_mask'' \<mapsto> DistTensor_init [12] Bool8 None,
                              ''orig_id'' \<mapsto> DistTensor_init [12] Int64 None],
                dist_edata = Map.empty\<rparr>,
         nb_arr = DistTensor_init [12] Float32 None,
         nb_emb = \<lparr>emb_table = [], emb_trace = []\<rparr>\<rparr>
   \<and> (\<exists>nb2. run_cells (\<lambda>shape dt. zeros shape) (\<lambda>row gr. row) notebook_cells
          \<lparr>nb_g = \<lparr>dist_num_nodes = 12, dist_num_edges = 0,
                dist_ndata = [''train_mask'' \<mapsto> DistTensor_init [12] Bool8 None,
                              ''orig_id'' \<mapsto> DistTensor_init [12] Int64 None],
                dist_edata = Map.empty\<rparr>,
            nb_arr = DistTensor_init [0] Float32 None,
            nb_emb = \<lparr>emb_table = [], emb_trace = []\<rparr>\<rparr> = Inr nb2
        \<and> dist_ndata (nb_g nb2) ''new_data''
            = Some (DistTensor_init [12] Float32 (Some (\<lambda>shape dt. zeros shape)))
        \<and> dist_ndata (nb_g nb2) ''orig_id'' = Some (DistTensor_init [12] Int64 None)
        \<and> dist_edata (nb_g nb2) = Map.empty)"
proof -
  let ?init = "\<lambda>(shape::nat list) (dt::dtype). zeros shape"
  let ?rule = "\<lambda>(row::real list) (gr::real list). row"
  let ?g = "\<lparr>dist_num_nodes = 12, dist_num_edges = 0,
                dist_ndata = [''train_mask'' \<mapsto> DistTensor_init [12] Bool8 None,
                              ''orig_id'' \<mapsto> DistTensor_init [12] Int64 None],
                dist_edata = Map.empty\<rparr>"
  let ?nb = "\<lparr>nb_g = ?g, nb_arr = DistTensor_init [0] Float32 None,
             nb_emb = \<lparr>emb_table = [], emb_trace = []\<rparr>\<rparr>"
  have runs: "\<exists>nb2. run_cells ?init ?rule notebook_cells ?nb = Inr nb2"
    by (simp add: notebook_cells_def DistEmbedding_init_def DistEmbedding_call_def
        optimizer_step_def length_sparse_update ndata_setitem_def zeros_def num_rows_def
        DistTensor_getitem_def DistTensor_init_def)
  then obtain nb2 where r: "run_cells ?init ?rule notebook_cells ?nb = Inr nb2" ..
  note t = notebook_graph_frame [of CreateArr ?init ?rule ?nb _ nb2,
      THEN conjunct2, THEN conjunct2, rule_format, OF r]
  have nd: "dist_ndata (nb_g nb2) = (dist_ndata (nb_g ?nb))(''new_data'' \<mapsto>
             DistTensor_init [dist_num_nodes (nb_g ?nb)] Float32 (Some ?init))"
    using t by (rule conjunct1)
  have ed: "dist_edata (nb_g nb2) = dist_edata (nb_g ?nb)"
    using t by (elim conjE)
  have n1: "dist_ndata (nb_g nb2) ''new_data'' = Some (DistTensor_init [12] Float32 (Some ?init))"
    unfolding nd by simp
  have n2: "dist_ndata (nb_g nb2) ''orig_id'' = Some (DistTensor_init [12] Int64 None)"
    unfolding nd by simp
  have e: "dist_edata (nb_g nb2) = Map.empty"
    unfolding ed by simp
  have c: "run_cell ?init ?rule CreateArr ?nb
     = Inr \<lparr>nb_g = ?g, nb_arr = DistTensor_init [12] Float32 None,
            nb_emb = \<lparr>emb_table = [], emb_trace = []\<rparr>\<rparr>"
    by simp
  show ?thesis
    using c r n1 n2 e by (intro conjI exI [of _ nb2])
qed

subsection \<open>The sparse update of the embedding table\<close>

lemma optimizer_step_other_row:
  assumes "j \<notin> set (emb_trace emb)"
  shows "emb_table (optimizer_step rule grad_of emb) ! j = emb_table emb ! j"
proof -
  let ?grads = "zip (emb_trace emb) (grad_of (map (\<lambda>i. emb_table emb ! i) (emb_trace emb)))"
  have "fst ` set ?grads \<subseteq> set (emb_trace emb)"
    by (auto dest: set_zip_leftD)
  then have "j \<notin> fst ` set ?grads" using assms by blast
  then show ?thesis
    by (simp add: optimizer_step_def Let_def sparse_update_other_row)
qed

lemma lookup_step_frame:
  assumes "DistEmbedding_call True emb idx = Inr (feats, emb1)"
  shows "feats = map (\<lambda>i. emb_table emb ! i) idx
       \<and> emb_trace emb1 = emb_trace emb @ idx
       \<and> length (emb_table (optimizer_step rule grad_of emb1)) = length (emb_table emb)
       \<and> (\<forall>j. j < length (emb_table emb) \<and> j \<notin> set (emb_trace emb) \<and> j \<notin> set idx \<longrightarrow>
              emb_table (optimizer_step rule grad_of emb1) ! j = emb_table emb ! j)
       \<and> emb_trace (optimizer_step rule grad_of emb1) = []"
proof -
  from assms have f: "feats = map (\<lambda>i. emb_table emb ! i) idx"
    and e1: "emb1 = emb\<lparr>emb_trace := emb_trace emb @ idx\<rparr>"
    by (auto simp: DistEmbedding_call_def split: if_splits)
  have tr: "emb_trace emb1 = emb_trace emb @ idx" and tb: "emb_table emb1 = emb_table emb"
    by (simp_all add: e1)
  have len: "length (emb_table (optimizer_step rule grad_of emb1)) = length (emb_table emb)"
    by (simp add: optimizer_step_def Let_def length_sparse_update tb)
  have others: "emb_table (optimizer_step rule grad_of emb1) ! j = emb_table emb ! j"
    if "j \<notin> set (emb_trace emb)" "j \<notin> set idx" for j
    using optimizer_step_other_row [of j emb1 rule grad_of] that by (simp add: tr tb)
  have "emb_trace (optimizer_step rule grad_of emb1) = []"
    by (simp add: optimizer_step_def Let_def)
  with f tr len others show ?thesis by blast
qed

text \<open>A new embedding and an embedding after a step have no lookup pending.\<close>

lemma no_lookup_pending:
  "emb_trace (DistEmbedding_init num_embeddings embedding_dim init) = []"
  "emb_trace (optimizer_step rule grad_of emb) = []"
  by (simp_all add: DistEmbedding_init_def optimizer_step_def Let_def)

text \<open>
  Claim C8, as amended. After a minibatch lookup \<open>emb(idx)\<close> with gradient recording,
  \<open>loss.backward()\<close> and the optimizer's step, for any loss and any update rule, the
  table has as many rows as before, and every row is unchanged whose index is neither
  in \<open>idx\<close> nor in a recorded lookup that was still pending when \<open>idx\<close> was looked
  up; the step takes all pending lookups with it and leaves none. The lookup returned
  the rows at \<open>idx\<close>. The same holds of the notebook's cell, which looks up
  \<open>[0, 1, 2, 3]\<close>; there the embedding is new, nothing is pending, and after the
  cells that create the embedding and train it every row other than rows 0 to 3 is as
  the init function gave it.
\<close>

theorem sparse_step_frame:
  "(DistEmbedding_call True emb idx = Inr (feats, emb1) \<longrightarrow>
       feats = map (\<lambda>i. emb_table emb ! i) idx
       \<and> emb_trace emb1 = emb_trace emb @ idx
       \<and> length (emb_table (optimizer_step rule grad_of emb1)) = length (emb_table emb)
       \<and> (\<forall>j. j < length (emb_table emb) \<and> j \<notin> set (emb_trace emb) \<and> j \<notin> set idx \<longrightarrow>
              emb_table (optimizer_step rule grad_of emb1) ! j = emb_table emb ! j)
       \<and> emb_trace (optimizer_step rule grad_of emb1) = [])
   \<and> (run_cell init rule TrainStep nb = Inr nb' \<longrightarrow>
       length (emb_table (nb_emb nb')) = length (emb_table (nb_emb nb))
       \<and> (\<forall>j. j < length (emb_table (nb_emb nb)) \<and> j \<notin> set (emb_trace (nb_emb nb))
                 \<and> j \<notin> {0, 1, 2, 3} \<longrightarrow>
              emb_table (nb_emb nb') ! j = emb_table (nb_emb nb) ! j))
   \<and> (run_cells init rule [CreateEmb, TrainStep] nb = Inr nb2 \<longrightarrow>
       length (emb_table (nb_emb nb2)) = length (init [dist_num_nodes (nb_g nb), 10] Float32)
       \<and> (\<forall>j. j < length (init [dist_num_nodes (nb_g nb), 10] Float32) \<and> j \<notin> {0, 1, 2, 3} \<longrightarrow>
              emb_table (nb_emb nb2) ! j = init [dist_num_nodes (nb_g nb), 10] Float32 ! j))"
proof -
  have A: "feats = map (\<lambda>i. emb_table emb ! i) idx
       \<and> emb_trace emb1 = emb_trace emb @ idx
       \<and> length (emb_table (optimizer_step rule grad_of emb1)) = length (emb_table emb)
       \<and> (\<forall>j. j < length (emb_table emb) \<and> j \<notin> set (emb_trace emb) \<and> j \<notin> set idx \<longrightarrow>
              emb_table (optimizer_step rule grad_of emb1) ! j = emb_table emb ! j)
       \<and> emb_trace (optimizer_step rule grad_of emb1) = []"
    if "DistEmbedding_call True emb idx = Inr (feats, emb1)"
    using that by (rule lookup_step_frame)
  have B: "length (emb_table (nb_emb nb')) = length (emb_table (nb_emb nb))
       \<and> (\<forall>j. j < length (emb_table (nb_emb nb)) \<and> j \<notin> set (emb_trace (nb_emb nb))
                 \<and> j \<notin> {0, 1, 2, 3} \<longrightarrow>
              emb_table (nb_emb nb') ! j = emb_table (nb_emb nb) ! j)"
    if a: "run_cell init rule TrainStep nb = Inr nb'" for nb nb'
  proof -
    from a obtain feats1 emb2 where
      call: "DistEmbedding_call True (nb_emb nb) [0, 1, 2, 3] = Inr (feats1, emb2)" and
      nb': "nb' = nb\<lparr>nb_emb := optimizer_step rule sum_loss_grad emb2\<rparr>"
      by (auto split: sum.splits)
    note fr = lookup_step_frame [OF call, of rule sum_loss_grad]
    show ?thesis
      using fr by (simp add: nb')
  qed
  have C: "length (emb_table (nb_emb nb2)) = length (init [dist_num_nodes (nb_g nb), 10] Float32)
       \<and> (\<forall>j. j < length (init [dist_num_nodes (nb_g nb), 10] Float32) \<and> j \<notin> {0, 1, 2, 3} \<longrightarrow>
              emb_table (nb_emb nb2) ! j = init [dist_num_nodes (nb_g nb), 10] Float32 ! j)"
    if r: "run_cells init rule [CreateEmb, TrainStep] nb = Inr nb2"
  proof -
    let ?nb1 = "nb\<lparr>nb_emb := DistEmbedding_init (dist_num_nodes (nb_g nb)) 10 init\<rparr>"
    have e: "run_cell init rule CreateEmb nb = Inr ?nb1" by simp
    have "run_cells init rule [CreateEmb, TrainStep] nb
            = (case run_cell init rule TrainStep ?nb1 of Inl x \<Rightarrow> Inl x | Inr nb' \<Rightarrow> Inr nb')"
      unfolding run_cells.simps e by (simp only: sum.case)
    with r have step: "run_cell init rule TrainStep ?nb1 = Inr nb2"
      by (cases "run_cell init rule TrainStep ?nb1") simp_all
    have tbl: "emb_table (nb_emb ?nb1) = init [dist_num_nodes (nb_g nb), 10] Float32"
      and tr: "emb_trace (nb_emb ?nb1) = []"
      by (simp_all add: DistEmbedding_init_def)
    show ?thesis
      using B [OF step] unfolding tbl tr by simp
  qed
  show ?thesis
    using A B C by blast
qed

text \<open>
  Claim C8 as stated fails when an earlier recorded lookup is still pending: after
  the lookups \<open>emb([0])\<close> and \<open>emb([1])\<close>, a step changes row 0, whose index is not
  in the minibatch \<open>[1]\<close>.
\<close>

theorem pending_lookup_row_changes:
  "DistEmbedding_call True \<lparr>emb_table = [[1], [2]], emb_trace = []\<rparr> [0]
      = Inr ([[1]], \<lparr>emb_table = [[1], [2]], emb_trace = [0]\<rparr>)
   \<and> DistEmbedding_call True \<lparr>emb_table = [[1], [2]], emb_trace = [0]\<rparr> [1]
      = Inr ([[2]], \<lparr>emb_table = [[1], [2]], emb_trace = [0, 1]\<rparr>)
   \<and> 0 \<notin> set [1 :: nat]
   \<and> emb_table \<lparr>emb_table = [[1], [2]], emb_trace = [0]\<rparr> ! 0 = [1]
   \<and> emb_table (optimizer_step (\<lambda>row gr. map2 (-) row gr) sum_loss_grad
                  \<lparr>emb_table = [[1], [2]], emb_trace = [0, 1]\<rparr>) ! 0 = [0]"
  by (simp add: DistEmbedding_call_def optimizer_step_def sparse_update_def sum_loss_grad_def)

text \<open>
  The amended claim on a table of three rows with a lookup of row 0 pending: after
  the lookup of row 2 and a step with the loss \<open>th.sum(feats + 1)\<close> and a rule that
  subtracts the gradient, rows 0 and 2 have changed and row 1 has not. And on the
  notebook's cells over six nodes, with an init function that gives the rows 1 to 6:
  the training cell changes rows 0 to 3 and leaves rows 4 and 5 as the init function
  gave them.
\<close>

theorem sparse_step_frame_witness:
  "DistEmbedding_call True \<lparr>emb_table = [[1], [2], [3]], emb_trace = [0]\<rparr> [2]
       = Inr ([[3]], \<lparr>emb_table = [[1], [2], [3]], emb_trace = [0, 2]\<rparr>)
   \<and> emb_table (optimizer_step (\<lambda>row gr. map2 (-) row gr) sum_loss_grad
                  \<lparr>emb_table = [[1], [2], [3]], emb_trace = [0, 2]\<rparr>) = [[0], [2], [2]]
   \<and> emb_table (optimizer_step (\<lambda>row gr. map2 (-) row gr) sum_loss_grad
                  \<lparr>emb_table = [[1], [2], [3]], emb_trace = [0, 2]\<rparr>) ! 1
       = emb_table \<lparr>emb_table = [[1], [2], [3]], emb_trace = [0]\<rparr> ! 1
   \<and> run_cell (\<lambda>shape dt. [[1], [2], [3], [4], [5], [6]]) (\<lambda>row gr. map2 (-) row gr) TrainStep
        \<lparr>nb_g = \<lparr>dist_num_nodes = 6, dist_num_edges = 0,
                  dist_ndata = Map.empty, dist_edata = Map.empty\<rparr>,
          nb_arr = DistTensor_init [6] Float32 None,
          nb_emb = \<lparr>emb_table = [[1], [2], [3], [4], [5], [6]], emb_trace = []\<rparr>\<rparr>
       = Inr \<lparr>nb_g = \<lparr>dist_num_nodes = 6, dist_num_edges = 0,
                  dist_ndata = Map.empty, dist_edata = Map.empty\<rparr>,
          nb_arr = DistTensor_init [6] Float32 None,
          nb_emb = \<lparr>emb_table = [[0], [1], [2], [3], [5], [6]], emb_trace = []\<rparr>\<rparr>
   \<and> [[0], [1], [2], [3], [5], [6]] ! 4 = [[1], [2], [3], [4], [5], [6 :: real]] ! 4
   \<and> run_cells (\<lambda>shape dt. [[1], [2], [3], [4], [5], [6]]) (\<lambda>row gr. map2 (-) row gr)
        [CreateEmb, TrainStep]
        \<lparr>nb_g = \<lparr>dist_num_nodes = 6, dist_num_edges = 0,
                  dist_ndata = Map.empty, dist_edata = Map.empty\<rparr>,
          nb_arr = DistTensor_init [6] Float32 None,
          nb_emb = \<lparr>emb_table = [], emb_trace = []\<rparr>\<rparr>
       = Inr \<lparr>nb_g = \<lparr>dist_num_nodes = 6, dist_num_edges = 0,
                  dist_ndata = Map.empty, dist_edata = Map.empty\<rparr>,
          nb_arr = DistTensor_init [6] Float32 None,
          nb_emb = \<lparr>emb_table = [[0], [1], [2], [3], [5], [6]], emb_trace = []\<rparr>\<rparr>
   \<and> [[0], [1], [2], [3], [5], [6]] ! 5 = [[1], [2], [3], [4], [5], [6 :: real]] ! 5"
proof -
  let ?emb = "\<lparr>emb_table = [[1], [2], [3]], emb_trace = [0]\<rparr> :: DistEmbedding"
  let ?embL = "\<lparr>emb_table = [[1], [2], [3]], emb_trace = [0, 2]\<rparr> :: DistEmbedding"
  let ?init = "\<lambda>(shape :: nat list) (dt :: dtype). [[1], [2], [3], [4], [5], [6 :: real]]"
  let ?rule = "\<lambda>(row :: real list) (gr :: real list). map2 (-) row gr"
  let ?g = "\<lparr>dist_num_nodes = 6, dist_num_edges = 0,
                  dist_ndata = Map.empty, dist_edata = Map.empty\<rparr>"
  let ?nb = "\<lparr>nb_g = ?g, nb_arr = DistTensor_init [6] Float32 None,
          nb_emb = \<lparr>emb_table = [[1], [2], [3], [4], [5], [6]], emb_trace = []\<rparr>\<rparr>"
  let ?nbE = "\<lparr>nb_g = ?g, nb_arr = DistTensor_init [6] Float32 None,
          nb_emb = \<lparr>emb_table = [], emb_trace = []\<rparr>\<rparr>"
  let ?nbT = "\<lparr>nb_g = ?g, nb_arr = DistTensor_init [6] Float32 None,
          nb_emb = \<lparr>emb_table = [[0], [1], [2], [3], [5], [6]], emb_trace = []\<rparr>\<rparr>"
  have h: "DistEmbedding_call True ?emb [2] = Inr ([[3]], ?embL)"
    by (simp add: DistEmbedding_call_def)
  note t = sparse_step_frame [of ?emb "[2]" "[[3]]" ?embL "\<lambda>row gr. map2 (-) row gr"
      sum_loss_grad, THEN conjunct1, rule_format, OF h]
  have v: "emb_table (optimizer_step (\<lambda>row gr. map2 (-) row gr) sum_loss_grad ?embL)
             = [[0], [2], [2]]"
    by (simp add: optimizer_step_def sparse_update_def sum_loss_grad_def)
  from t have w: "emb_table (optimizer_step (\<lambda>row gr. map2 (-) row gr) sum_loss_grad ?embL) ! 1
       = emb_table ?emb ! 1"
    by simp
  have s: "run_cell ?init ?rule TrainStep ?nb = Inr ?nbT"
    by (simp add: DistEmbedding_call_def optimizer_step_def sparse_update_def sum_loss_grad_def)
  note t2 = sparse_step_frame [where init = ?init and rule = ?rule and nb = ?nb and nb' = ?nbT,
      THEN conjunct2, THEN conjunct1, rule_format, OF s]
  from t2 have s4: "[[0], [1], [2], [3], [5], [6]] ! 4 = [[1], [2], [3], [4], [5], [6 :: real]] ! 4"
    by simp
  have r: "run_cells ?init ?rule [CreateEmb, TrainStep] ?nbE = Inr ?nbT"
    by (simp add: DistEmbedding_init_def DistEmbedding_call_def optimizer_step_def
        sparse_update_def sum_loss_grad_def)
  note t3 = sparse_step_frame [where init = ?init and rule = ?rule and nb = ?nbE and ?nb2.0 = ?nbT,
      THEN conjunct2, THEN conjunct2, rule_format, OF r]
  from t3 have s5: "[[0], [1], [2], [3], [5], [6]] ! 5 = [[1], [2], [3], [4], [5], [6 :: real]] ! 5"
    by simp
  show ?thesis
    using h v w s s4 r s5 by (intro conjI)
qed

section \<open>The score predictor\<close>

lemma ScorePredictor_forward_eq:
  assumes "length x = num_nodes g" and "valid_graph g"
  shows "ScorePredictor_forward g x
           = Inr (map (\<lambda>(u, v). [dot (x ! u) (x ! v)]) (edges g), g)"
proof -
  have inr: "list_all (\<lambda>(u, v). u < length x \<and> v < length x) (edges g)"
    using assms by (simp add: valid_graph_def)
  show ?thesis
    using inr assms(1)
    by (simp add: ScorePredictor_forward_def local_scope_def ndata_set_def apply_edges_def
        u_dot_v_def)
qed

text \<open>
  Claim C9. For every subgraph whose edges join nodes of the subgraph and every \<open>x\<close>
  with one row per node, \<open>ScorePredictor.forward(subgraph, x)\<close> returns one score per
  edge, and the score of edge \<open>e = (u, v)\<close> is the one-element row holding the dot
  product of \<open>x[u]\<close> and \<open>x[v]\<close>. The subgraph's feature frames are afterwards as
  they were before the call.
\<close>

theorem score_is_dot_product:
  assumes "length x = num_nodes g" and "valid_graph g"
  shows "\<exists>score. ScorePredictor_forward g x = Inr (score, g)
           \<and> length score = number_of_edges g
           \<and> (\<forall>e < number_of_edges g.
                 score ! e = [dot (x ! fst (edges g ! e)) (x ! snd (edges g ! e))])"
  using ScorePredictor_forward_eq [OF assms]
  by (simp add: number_of_edges_def case_prod_unfold)

text \<open>
  The theorem on a subgraph of three nodes and the edges \<open>0 \<rightarrow> 1\<close> and \<open>2 \<rightarrow> 1\<close>:
  the scores are \<open>1 * 3 + 2 * 4 = 11\<close> and \<open>5 * 3 + 6 * 4 = 39\<close>.
\<close>

theorem score_is_dot_product_witness:
  "length [[1, 2], [3, 4], [5, 6 :: real]]
      = num_nodes \<lparr>num_nodes = 3, edges = [(0, 1), (2, 1)], ndata = Map.empty, edata = Map.empty\<rparr>
   \<and> valid_graph \<lparr>num_nodes = 3, edges = [(0, 1), (2, 1)], ndata = Map.empty, edata = Map.empty\<rparr>
   \<and> ScorePredictor_forward
        \<lparr>num_nodes = 3, edges = [(0, 1), (2, 1)], ndata = Map.empty, edata = Map.empty\<rparr>
        [[1, 2], [3, 4], [5, 6]]
      = Inr ([[11], [39]],
             \<lparr>num_nodes = 3, edges = [(0, 1), (2, 1)], ndata = Map.empty, edata = Map.empty\<rparr>)"
proof -
  let ?g = "\<lparr>num_nodes = 3, edges = [(0, 1), (2, 1)], ndata = Map.empty, edata = Map.empty\<rparr> :: DGLGraph"
  let ?x = "[[1, 2], [3, 4], [5, 6 :: real]]"
  have h1: "length ?x = num_nodes ?g" by simp
  have h2: "valid_graph ?g" by (simp add: valid_graph_def)
  from score_is_dot_product [OF h1 h2] obtain score where
    r: "ScorePredictor_forward ?g ?x = Inr (score, ?g)" and
    l: "length score = number_of_edges ?g" and
    s: "\<forall>e < number_of_edges ?g. score ! e = [dot (?x ! fst (edges ?g ! e)) (?x ! snd (edges ?g ! e))]"
    by blast
  have n: "number_of_edges ?g = 2" by (simp add: number_of_edges_def)
  have "score ! 0 = [11]" using s [rule_format, of 0] by (simp add: number_of_edges_def dot_def)
  moreover have "score ! 1 = [39]" using s [rule_format, of 1] by (simp add: number_of_edges_def dot_def)
  moreover have "length score = 2" using l n by simp
  ultimately have "score = [[11], [39]]"
    by (intro nth_equalityI) (auto simp: less_Suc_eq numeral_2_eq_2)
  with r h1 h2 show ?thesis by simp
qed

section \<open>The neighbor sampler\<close>

lemma remove_nth_facts:
  assumes "i < length xs"
  shows "set (take i xs @ drop (Suc i) xs) \<subseteq> set xs"
    and "distinct xs \<Longrightarrow> distinct (take i xs @ drop (Suc i) xs)"
    and "distinct xs \<Longrightarrow> xs ! i \<notin> set (take i xs @ drop (Suc i) xs)"
proof -
  have split: "xs = take i xs @ xs ! i # drop (Suc i) xs"
    using assms by (rule id_take_nth_drop)
  show "set (take i xs @ drop (Suc i) xs) \<subseteq> set xs"
    by (auto dest: in_set_takeD in_set_dropD)
  assume "distinct xs"
  then have d: "distinct (take i xs @ xs ! i # drop (Suc i) xs)"
    using split by simp
  from d show "distinct (take i xs @ drop (Suc i) xs)" by auto
  from d show "xs ! i \<notin> set (take i xs @ drop (Suc i) xs)" by auto
qed

lemma sample_subset: "set (sample_without_replacement rnd k xs) \<subseteq> set xs"
proof (induction k arbitrary: xs)
  case 0
  show ?case by simp
next
  case (Suc k)
  show ?case
  proof (cases "xs = []")
    case True
    then show ?thesis by simp
  next
    case False
    let ?i = "rnd k mod length xs"
    have i: "?i < length xs" using False by simp
    have "set (sample_without_replacement rnd k (take ?i xs @ drop (Suc ?i) xs)) \<subseteq> set xs"
      using Suc.IH remove_nth_facts(1) [OF i] by (rule order_trans)
    then show ?thesis
      using False i by (simp add: Let_def)
  qed
qed

lemma sample_length: "length (sample_without_replacement rnd k xs) \<le> k"
  by (induction k arbitrary: xs) (simp_all add: Let_def)

lemma sample_distinct:
  "distinct xs \<Longrightarrow> distinct (sample_without_replacement rnd k xs)"
proof (induction k arbitrary: xs)
  case 0
  show ?case by simp
next
  case (Suc k)
  show ?case
  proof (cases "xs = []")
    case True
    then show ?thesis by simp
  next
    case False
    let ?i = "rnd k mod length xs"
    let ?rest = "take ?i xs @ drop (Suc ?i) xs"
    have i: "?i < length xs" using False by simp
    have d: "distinct (sample_without_replacement rnd k ?rest)"
      using Suc.prems remove_nth_facts(2) [OF i] by (intro Suc.IH)
    have "xs ! ?i \<notin> set ?rest"
      using Suc.prems remove_nth_facts(3) [OF i] by blast
    then have "xs ! ?i \<notin> set (sample_without_replacement rnd k ?rest)"
      using sample_subset [of rnd k ?rest] by blast
    with d show ?thesis
      using False by (simp add: Let_def)
  qed
qed

lemma in_edges_facts:
  "e \<in> set (in_edges g v) \<longleftrightarrow> e < length (edges g) \<and> snd (edges g ! e) = v"
  by (auto simp: in_edges_def)

lemma distinct_in_edges: "distinct (in_edges g v)"
  by (simp add: in_edges_def)

lemma length_in_edges: "length (in_edges g v) = in_degree g v"
proof -
  have "map (\<lambda>e. edges g ! e) [0..<length (edges g)] = edges g"
    by (rule map_nth)
  then have "filter (\<lambda>p. snd p = v) (edges g)
          = map (\<lambda>e. edges g ! e) (filter (\<lambda>e. snd (edges g ! e) = v) [0..<length (edges g)])"
    by (metis (no_types, lifting) filter_map comp_def filter_cong)
  then show ?thesis
    by (simp add: in_edges_def in_degree_def)
qed

text \<open>The edge IDs drawn for one seed are no more than the edges that enter it.\<close>

lemma drawn_at_most_in_degree:
  "length (sample_without_replacement r fanout (in_edges g v)) \<le> in_degree g v"
proof -
  let ?d = "sample_without_replacement r fanout (in_edges g v)"
  have "distinct ?d"
    by (intro sample_distinct distinct_in_edges)
  moreover have "card (set ?d) \<le> card (set (in_edges g v))"
    using sample_subset [of r fanout "in_edges g v"] by (intro card_mono) auto
  ultimately show ?thesis
    using distinct_in_edges [of g v]
    by (simp add: distinct_card length_in_edges [symmetric])
qed

lemma filter_dst_concat:
  fixes g :: graph
  assumes "distinct seeds"
  shows "filter (\<lambda>e. snd (edges g ! e) = v)
           (concat (map (\<lambda>u. sample_without_replacement (rnd u) fanout (in_edges g u)) seeds))
         = (if v \<in> set seeds then sample_without_replacement (rnd v) fanout (in_edges g v) else [])"
  using assms
proof (induction seeds)
  case Nil
  show ?case by simp
next
  case (Cons u seeds)
  let ?d = "\<lambda>u. sample_without_replacement (rnd u) fanout (in_edges g u)"
  have all: "\<forall>e \<in> set (?d u). snd (edges g ! e) = u"
    using sample_subset [of "rnd u" fanout "in_edges g u"] by (auto simp: in_edges_facts)
  have here: "filter (\<lambda>e. snd (edges g ! e) = v) (?d u) = (if u = v then ?d u else [])"
  proof (cases "u = v")
    case True
    then show ?thesis using all by (simp add: filter_id_conv)
  next
    case False
    then show ?thesis using all by (simp add: filter_empty_conv)
  qed
  have rest: "filter (\<lambda>e. snd (edges g ! e) = v) (concat (map ?d seeds))
         = (if v \<in> set seeds then ?d v else [])"
    using Cons by simp
  show ?case
    using Cons.prems by (auto simp: here rest)
qed

lemma distinct_drawn_concat:
  fixes g :: graph
  assumes "distinct seeds"
  shows "distinct (concat (map (\<lambda>u. sample_without_replacement (rnd u) fanout (in_edges g u)) seeds))"
  using assms
proof (induction seeds)
  case Nil
  show ?case by simp
next
  case (Cons u seeds)
  let ?d = "\<lambda>u. sample_without_replacement (rnd u) fanout (in_edges g u)"
  have dst: "snd (edges g ! e) = w" if "e \<in> set (?d w)" for e w
    using that sample_subset [of "rnd w" fanout "in_edges g w"] by (auto simp: in_edges_facts)
  have "set (?d u) \<inter> set (concat (map ?d seeds)) = {}"
  proof (rule ccontr)
    assume "set (?d u) \<inter> set (concat (map ?d seeds)) \<noteq> {}"
    then obtain e w where "e \<in> set (?d u)" "w \<in> set seeds" "e \<in> set (?d w)"
      by auto
    then have "u = w" using dst by blast
    then show False using Cons.prems \<open>w \<in> set seeds\<close> by simp
  qed
  moreover have "distinct (?d u)"
    by (intro sample_distinct distinct_in_edges)
  moreover have "distinct (concat (map ?d seeds))"
    using Cons by simp
  ultimately show ?case by simp
qed

text \<open>The call returns a frontier when the layer index is in range and the seeds are nodes.\<close>

lemma sample_frontier_returns:
  assumes "0 \<le> i" and "i < int (length (fanouts self))"
    and "list_all (\<lambda>v. v < num_nodes g) seeds"
  shows "\<exists>F. sample_frontier self rnd i g seeds = Inr F"
  using assms by (simp add: sample_frontier_def py_getitem_def sample_neighbors_def)

text \<open>
  Claim C7. Whenever \<open>sample_frontier(i, g, seeds)\<close> returns a frontier for a list of
  distinct seed nodes, \<open>fanouts[i]\<close> exists, the frontier has the nodes of \<open>g\<close>, its
  edges are distinct edges of \<open>g\<close> that each enter a seed node, and every seed node
  has at most \<open>fanouts[i]\<close> entering edges in the frontier, and no more than it has in
  \<open>g\<close>. This holds for every outcome of the random draws.
\<close>

theorem sampled_frontier_bounded:
  assumes "distinct seeds" and "sample_frontier self rnd i g seeds = Inr F"
  shows "\<exists>fanout eids.
           py_getitem (fanouts self) i = Inr fanout
         \<and> num_nodes F = num_nodes g
         \<and> distinct eids
         \<and> list_all (\<lambda>e. e < length (edges g) \<and> snd (edges g ! e) \<in> set seeds) eids
         \<and> edges F = map (\<lambda>e. edges g ! e) eids
         \<and> list_all (\<lambda>v. in_degree F v \<le> fanout \<and> in_degree F v \<le> in_degree g v) seeds"
proof -
  from assms(2) obtain fanout where
    fo: "py_getitem (fanouts self) i = Inr fanout" and
    sn: "sample_neighbors rnd g seeds fanout = Inr F"
    by (auto simp: sample_frontier_def split: sum.splits)
  let ?d = "\<lambda>u. sample_without_replacement (rnd u) fanout (in_edges g u)"
  let ?eids = "concat (map ?d seeds)"
  from sn have F: "F = \<lparr>num_nodes = num_nodes g, edges = map (\<lambda>e. edges g ! e) ?eids\<rparr>"
    by (auto simp: sample_neighbors_def split: if_splits)
  have nn: "num_nodes F = num_nodes g" and ed: "edges F = map (\<lambda>e. edges g ! e) ?eids"
    by (simp_all add: F)
  have dist: "distinct ?eids"
    using assms(1) by (rule distinct_drawn_concat)
  have inr: "list_all (\<lambda>e. e < length (edges g) \<and> snd (edges g ! e) \<in> set seeds) ?eids"
  proof -
    have "e < length (edges g) \<and> snd (edges g ! e) \<in> set seeds" if "e \<in> set ?eids" for e
    proof -
      from that obtain u where u: "u \<in> set seeds" and e: "e \<in> set (?d u)" by auto
      from e have "e \<in> set (in_edges g u)"
        using sample_subset [of "rnd u" fanout "in_edges g u"] by blast
      with u show ?thesis by (simp add: in_edges_facts)
    qed
    then show ?thesis by (simp add: list_all_iff)
  qed
  have deg: "in_degree F v \<le> fanout \<and> in_degree F v \<le> in_degree g v" if "v \<in> set seeds" for v
  proof -
    have "in_degree F v = length (filter (\<lambda>e. snd (edges g ! e) = v) ?eids)"
      by (simp add: in_degree_def ed filter_map comp_def)
    also have "\<dots> = length (?d v)"
      using filter_dst_concat [OF assms(1), of g v rnd fanout] that by simp
    finally have "in_degree F v = length (?d v)" .
    then show ?thesis
      using sample_length [of "rnd v" fanout "in_edges g v"]
        drawn_at_most_in_degree [of "rnd v" fanout g v] by simp
  qed
  then have bound: "list_all (\<lambda>v. in_degree F v \<le> fanout \<and> in_degree F v \<le> in_degree g v) seeds"
    by (simp add: list_all_iff)
  show ?thesis
    using fo nn dist inr ed bound by blast
qed

text \<open>
  The theorem for fanouts \<open>[1, 4]\<close>, layer 0 and the seed node 2, which has two
  entering edges in the graph: the frontier keeps one of them.
\<close>

theorem sampled_frontier_bounded_witness:
  "distinct [2 :: nat]
   \<and> sample_frontier (MultiLayerNeighborSampler_init [1, 4]) (\<lambda>v k. 1) 0
        \<lparr>num_nodes = 3, edges = [(0, 2), (1, 2), (0, 1)]\<rparr> [2]
      = Inr \<lparr>num_nodes = 3, edges = [(1, 2)]\<rparr>
   \<and> in_degree \<lparr>num_nodes = 3, edges = [(1, 2)]\<rparr> 2 \<le> 1
   \<and> in_degree \<lparr>num_nodes = 3, edges = [(0, 2), (1, 2), (0, 1)]\<rparr> 2 = 2"
proof -
  let ?g = "\<lparr>num_nodes = 3, edges = [(0, 2), (1, 2), (0, 1)]\<rparr>"
  let ?F = "\<lparr>num_nodes = 3, edges = [(1, 2)]\<rparr>"
  have h1: "distinct [2 :: nat]" by simp
  have h2: "sample_frontier (MultiLayerNeighborSampler_init [1, 4]) (\<lambda>v k. 1) 0 ?g [2] = Inr ?F"
    by (simp add: sample_frontier_def MultiLayerNeighborSampler_init_def py_getitem_def
        sample_neighbors_def in_edges_def upt_rec)
  from sampled_frontier_bounded [OF h1 h2] obtain fanout where
    f: "py_getitem (fanouts (MultiLayerNeighborSampler_init [1, 4])) 0 = Inr fanout" and
    b: "list_all (\<lambda>v. in_degree ?F v \<le> fanout \<and> in_degree ?F v \<le> in_degree ?g v) [2]"
    by blast
  from f have "fanout = 1"
    by (simp add: MultiLayerNeighborSampler_init_def py_getitem_def)
  with b have "in_degree ?F 2 \<le> 1" by simp
  moreover have "in_degree ?g 2 = 2" by (simp add: in_degree_def)
  ultimately show ?thesis using h1 h2 by simp
qed

section \<open>Layer-wise inference\<close>

subsection \<open>Positions in a node list\<close>

lemma node_index_less: "x \<in> set xs \<Longrightarrow> node_index xs x < length xs"
  by (induction xs) (auto simp: node_index_def)

lemma nth_node_index: "x \<in> set xs \<Longrightarrow> xs ! node_index xs x = x"
  by (induction xs) (auto simp: node_index_def)

lemma node_index_nth:
  assumes "distinct xs" and "j < length xs"
  shows "node_index xs (xs ! j) = j"
proof -
  have in_set: "xs ! j \<in> set xs" using assms(2) by simp
  have "xs ! node_index xs (xs ! j) = xs ! j"
    using in_set by (rule nth_node_index)
  moreover have "node_index xs (xs ! j) < length xs"
    using in_set by (rule node_index_less)
  ultimately show ?thesis
    using assms by (simp add: nth_eq_iff_index_eq)
qed

subsection \<open>A layer on the whole graph and on a block\<close>

lemma layer_call_graph:
  assumes "length x = num_nodes g"
  shows "layer_call layer (graph_block g) x
           = Inr (map (\<lambda>v. layer (x ! v)
                        (map (\<lambda>(u, w). x ! u) (filter (\<lambda>(u, w). w = v) (edges g))))
                    [0..<num_nodes g])"
  using assms by (simp add: layer_call_def graph_block_def)

lemma block_sources:
  assumes "valid_graph g" and "\<forall>v \<in> set B. v < num_nodes g"
  shows "\<forall>u \<in> set (fst (to_block (in_subgraph g B) B)). u < num_nodes g"
  using assms
  by (auto simp: to_block_def Let_def in_subgraph_def valid_graph_def list_all_iff)

lemma block_rows:
  fixes g :: graph and B :: "nat list" and x :: tensor
  assumes d: "distinct B" and j: "j < length B"
  defines "src \<equiv> fst (to_block (in_subgraph g B) B)"
  defines "blk \<equiv> snd (to_block (in_subgraph g B) B)"
  shows "map (\<lambda>(u, w). map (\<lambda>i. x ! i) src ! u) (filter (\<lambda>(u, w). w = j) (block_edges blk))
           = map (\<lambda>(u, w). x ! u) (filter (\<lambda>(u, w). w = B ! j) (edges g))"
proof -
  let ?fe = "in_subgraph g B"
  let ?rel = "\<lambda>(u, v). (node_index src u, node_index B v)"
  have src: "src = B @ remdups (filter (\<lambda>u. u \<notin> set B) (map fst ?fe))"
    by (simp add: src_def to_block_def Let_def)
  have be: "block_edges blk = map ?rel ?fe"
    by (simp add: blk_def src_def to_block_def Let_def)
  have dst_in: "v \<in> set B" if "(u, v) \<in> set ?fe" for u v
    using that by (auto simp: in_subgraph_def)
  have src_in: "u \<in> set src" if "(u, v) \<in> set ?fe" for u v
  proof (cases "u \<in> set B")
    case True
    then show ?thesis by (simp add: src)
  next
    case False
    have "u \<in> set (map fst ?fe)" using that by force
    with False show ?thesis by (simp add: src)
  qed
  have sel: "filter (\<lambda>(u, w). w = j) (map ?rel ?fe)
               = map ?rel (filter (\<lambda>(u, w). w = B ! j) ?fe)"
  proof -
    have "(node_index B v = j) = (v = B ! j)" if "(u, v) \<in> set ?fe" for u v
      using dst_in [OF that] d j node_index_nth [OF d j] nth_node_index [of v B] by auto
    then have "filter ((\<lambda>(u, w). w = j) \<circ> ?rel) ?fe = filter (\<lambda>(u, w). w = B ! j) ?fe"
      by (intro filter_cong refl) auto
    then show ?thesis by (simp add: filter_map)
  qed
  have same: "filter (\<lambda>(u, w). w = B ! j) ?fe = filter (\<lambda>(u, w). w = B ! j) (edges g)"
    using j by (auto simp: in_subgraph_def intro!: filter_cong)
  have val: "(case ?rel p of (u, w) \<Rightarrow> map (\<lambda>i. x ! i) src ! u) = (case p of (u, w) \<Rightarrow> x ! u)"
    if "p \<in> set ?fe" for p
  proof -
    obtain u v where p: "p = (u, v)" by (cases p)
    have "u \<in> set src" using that src_in p by blast
    then show ?thesis
      by (simp add: p node_index_less nth_node_index)
  qed
  have "map (\<lambda>(u, w). map (\<lambda>i. x ! i) src ! u) (map ?rel (filter (\<lambda>(u, w). w = B ! j) ?fe))
          = map (\<lambda>(u, w). x ! u) (filter (\<lambda>(u, w). w = B ! j) ?fe)"
    using val by (simp add: comp_def)
  then show ?thesis
    by (simp only: be sel same)
qed

lemma layer_call_batch:
  fixes g :: graph and B :: "nat list" and x :: tensor
  assumes d: "distinct B" and vg: "valid_graph g" and inr: "\<forall>v \<in> set B. v < num_nodes g"
    and lx: "length x = num_nodes g"
  shows "\<exists>src blk. full_neighbor_batch g B = (src, B, [blk])
           \<and> index_rows x src = Inr (map (\<lambda>i. x ! i) src)
           \<and> layer_call layer blk (map (\<lambda>i. x ! i) src)
               = Inr (map (\<lambda>v. layer (x ! v)
                            (map (\<lambda>(u, w). x ! u) (filter (\<lambda>(u, w). w = v) (edges g)))) B)"
proof -
  let ?src = "fst (to_block (in_subgraph g B) B)"
  let ?blk = "snd (to_block (in_subgraph g B) B)"
  let ?xin = "map (\<lambda>i. x ! i) ?src"
  let ?F = "\<lambda>v. layer (x ! v) (map (\<lambda>(u, w). x ! u) (filter (\<lambda>(u, w). w = v) (edges g)))"
  have fb: "full_neighbor_batch g B = (?src, B, [?blk])"
    by (simp add: full_neighbor_batch_def case_prod_unfold Let_def)
  have "list_all (\<lambda>i. i < length x) ?src"
    using block_sources [OF vg inr] lx by (simp add: list_all_iff)
  then have ir: "index_rows x ?src = Inr ?xin"
    by (simp add: index_rows_def)
  have src: "?src = B @ remdups (filter (\<lambda>u. u \<notin> set B) (map fst (in_subgraph g B)))"
    by (simp add: to_block_def Let_def)
  have ns: "num_src_nodes ?blk = length ?src" and nd: "num_dst_nodes ?blk = length B"
    by (simp_all add: to_block_def Let_def)
  have row: "layer (?xin ! j)
               (map (\<lambda>(u, w). ?xin ! u) (filter (\<lambda>(u, w). w = j) (block_edges ?blk)))
             = ?F (B ! j)" if j: "j < length B" for j
  proof -
    have "j < length ?src" using j src by simp
    then have "?xin ! j = x ! (?src ! j)" by simp
    also have "?src ! j = B ! j" using j src by (simp add: nth_append)
    finally have own: "?xin ! j = x ! (B ! j)" .
    show ?thesis
      unfolding own block_rows [OF d j, where g = g and x = x] ..
  qed
  have "map (\<lambda>j. layer (?xin ! j)
               (map (\<lambda>(u, w). ?xin ! u) (filter (\<lambda>(u, w). w = j) (block_edges ?blk))))
            [0..<length B]
        = map (\<lambda>j. ?F (B ! j)) [0..<length B]"
    using row by (intro map_cong refl) simp
  also have "\<dots> = map ?F (map (\<lambda>j. B ! j) [0..<length B])"
    by (simp add: comp_def)
  also have "\<dots> = map ?F B"
    by (simp only: map_nth)
  finally have "layer_call layer ?blk ?xin = Inr (map ?F B)"
    by (simp add: layer_call_def ns nd)
  with fb ir show ?thesis by blast
qed

subsection \<open>Writing rows into the output buffer\<close>

lemma scatter_rows:
  assumes "\<forall>i \<in> set idx. i < length out"
  shows "length (fold (\<lambda>(i, r) acc. acc[i := r]) (zip idx (map F idx)) out) = length out"
    and "v < length out \<Longrightarrow>
           fold (\<lambda>(i, r) acc. acc[i := r]) (zip idx (map F idx)) out ! v
             = (if v \<in> set idx then F v else out ! v)"
  using assms
proof (induction idx arbitrary: out)
  case Nil
  {
    case 1
    show ?case by simp
  next
    case 2
    then show ?case by simp
  }
next
  case (Cons i idx)
  {
    case 1
    then show ?case using Cons.IH(1) [of "out[i := F i]"] by simp
  next
    case 2
    then show ?case
      using Cons.IH(2) [of "out[i := F i]"] by (auto simp: nth_list_update)
  }
qed

lemma assign_rows_map:
  assumes "\<forall>i \<in> set idx. i < length out" and "\<forall>i \<in> set idx. length (F i) = width"
  shows "assign_rows width out idx (map F idx)
           = Inr (fold (\<lambda>(i, r) acc. acc[i := r]) (zip idx (map F idx)) out)"
proof -
  have "list_all (\<lambda>r. length r = width) (map F idx)"
    using assms(2) by (simp add: list_all_iff)
  then have "broadcast_rows (length idx) width (map F idx) = Some (map F idx)"
    by (simp add: broadcast_rows_def)
  moreover have "list_all (\<lambda>i. i < length out) idx"
    using assms(1) by (simp add: list_all_iff)
  ultimately show ?thesis
    by (simp add: assign_rows_def)
qed

subsection \<open>The batches cover the nodes\<close>

lemma batches_cover_length:
  fixes n bs :: nat
  assumes "0 < bs"
  shows "n \<le> (n + bs - 1) div bs * bs"
proof -
  have "(n + bs - 1) mod bs < bs" using assms by simp
  moreover have "(n + bs - 1) div bs * bs + (n + bs - 1) mod bs = n + bs - 1"
    by simp
  ultimately show ?thesis by linarith
qed

lemma concat_batches_of:
  assumes "0 < bs"
  shows "concat (batches_of bs xs) = xs"
  unfolding batches_of_def concat_slices
  using batches_cover_length [OF assms, of "length xs"] by simp

lemma batches_of_member:
  assumes "B \<in> set (batches_of bs xs)"
  shows "set B \<subseteq> set xs" and "distinct xs \<Longrightarrow> distinct B"
proof -
  from assms obtain i where B: "B = take bs (drop (i * bs) xs)"
    by (auto simp: batches_of_def)
  show "set B \<subseteq> set xs"
    unfolding B by (meson order_trans set_take_subset set_drop_subset)
  show "distinct xs \<Longrightarrow> distinct B"
    unfolding B by simp
qed

subsection \<open>One layer over all batches\<close>

lemma inference_batches_result:
  fixes g :: graph and x :: tensor and layer :: conv and l :: nat and sage :: SAGE
  defines "F \<equiv> \<lambda>v. layer (x ! v) (map (\<lambda>(u, w). x ! u) (filter (\<lambda>(u, w). w = v) (edges g)))"
  defines "post \<equiv> \<lambda>r. if int l \<noteq> n_layers sage - 1 then map (max 0) r else r"
  assumes vg: "valid_graph g" and lx: "length x = num_nodes g"
    and width: "\<forall>h ns. length (layer h ns) = n_hidden sage"
    and bat: "\<forall>B \<in> set Bs. distinct B \<and> (\<forall>v \<in> set B. v < num_nodes g)"
    and lo: "length out = num_nodes g"
  shows "\<exists>out'. inference_batches sage l layer x (map (full_neighbor_batch g) Bs) out = Inr out'
           \<and> length out' = num_nodes g
           \<and> (\<forall>v < num_nodes g.
                 out' ! v = (if v \<in> \<Union>(set ` set Bs) then post (F v) else out ! v))"
  using bat lo
proof (induction Bs arbitrary: out)
  case Nil
  then show ?case by simp
next
  case (Cons B Bs)
  have dB: "distinct B" and rB: "\<forall>v \<in> set B. v < num_nodes g"
    using Cons.prems(1) by simp_all
  from layer_call_batch [OF dB vg rB lx, of layer] obtain src blk where
    fb: "full_neighbor_batch g B = (src, B, [blk])" and
    ir: "index_rows x src = Inr (map (\<lambda>i. x ! i) src)" and
    lc: "layer_call layer blk (map (\<lambda>i. x ! i) src) = Inr (map F B)"
    unfolding F_def by blast
  have x2: "(if int l \<noteq> n_layers sage - 1 then relu (map F B) else map F B)
              = map (\<lambda>v. post (F v)) B"
    by (simp add: post_def relu_def)
  have inr: "\<forall>i \<in> set B. i < length out"
    using rB Cons.prems(2) by simp
  have wid: "\<forall>i \<in> set B. length (post (F i)) = n_hidden sage"
    using width by (simp add: post_def F_def)
  let ?out1 = "fold (\<lambda>(i, r) acc. acc[i := r]) (zip B (map (\<lambda>v. post (F v)) B)) out"
  have ar: "assign_rows (n_hidden sage) out B (map (\<lambda>v. post (F v)) B) = Inr ?out1"
    using inr wid by (rule assign_rows_map)
  have l1: "length ?out1 = num_nodes g"
    using scatter_rows(1) [OF inr] Cons.prems(2) by simp
  have n1: "?out1 ! v = (if v \<in> set B then post (F v) else out ! v)" if "v < num_nodes g" for v
    using scatter_rows(2) [OF inr, of v "\<lambda>v. post (F v)"] that Cons.prems(2) by simp
  have step: "inference_batches sage l layer x (map (full_neighbor_batch g) (B # Bs)) out
                = inference_batches sage l layer x (map (full_neighbor_batch g) Bs) ?out1"
    by (simp add: fb ir lc x2 ar)
  from Cons.IH [of ?out1] Cons.prems(1) l1 obtain out' where
    r: "inference_batches sage l layer x (map (full_neighbor_batch g) Bs) ?out1 = Inr out'" and
    l': "length out' = num_nodes g" and
    n': "\<forall>v < num_nodes g. out' ! v = (if v \<in> \<Union>(set ` set Bs) then post (F v) else ?out1 ! v)"
    by auto
  have "out' ! v = (if v \<in> \<Union>(set ` set (B # Bs)) then post (F v) else out ! v)"
    if "v < num_nodes g" for v
    using n' [rule_format, OF that] n1 [OF that] by auto
  with step r l' show ?case by simp
qed

lemma inference_batches_layer:
  fixes g :: graph and x :: tensor and layer :: conv
  assumes vg: "valid_graph g" and lx: "length x = num_nodes g"
    and width: "\<forall>h ns. length (layer h ns) = n_hidden sage"
    and bs: "0 < bs"
  shows "inference_batches sage l layer x
           (map (full_neighbor_batch g) (batches_of bs [0..<num_nodes g]))
           (zeros [number_of_nodes g, n_hidden sage])
         = Inr (map (\<lambda>v. (if int l \<noteq> n_layers sage - 1 then map (max 0) else (\<lambda>r. r))
                          (layer (x ! v)
                             (map (\<lambda>(u, w). x ! u) (filter (\<lambda>(u, w). w = v) (edges g)))))
                    [0..<num_nodes g])"
proof -
  let ?Bs = "batches_of bs [0..<num_nodes g]"
  let ?z = "zeros [number_of_nodes g, n_hidden sage]"
  let ?F = "\<lambda>v. layer (x ! v) (map (\<lambda>(u, w). x ! u) (filter (\<lambda>(u, w). w = v) (edges g)))"
  let ?post = "\<lambda>r. if int l \<noteq> n_layers sage - 1 then map (max 0) r else r"
  have bat: "\<forall>B \<in> set ?Bs. distinct B \<and> (\<forall>v \<in> set B. v < num_nodes g)"
    using batches_of_member [of _ bs "[0..<num_nodes g]"] by fastforce
  have lz: "length ?z = num_nodes g"
    by (simp add: zeros_def num_rows_def number_of_nodes_def)
  from inference_batches_result [OF vg lx width bat lz, of l] obtain out' where
    r: "inference_batches sage l layer x (map (full_neighbor_batch g) ?Bs) ?z = Inr out'" and
    l': "length out' = num_nodes g" and
    n': "\<forall>v < num_nodes g. out' ! v = (if v \<in> \<Union>(set ` set ?Bs) then ?post (?F v) else ?z ! v)"
    by blast
  have "\<Union>(set ` set ?Bs) = set (concat ?Bs)" by simp
  also have "\<dots> = {0..<num_nodes g}"
    by (simp only: concat_batches_of [OF bs] set_upt)
  finally have cover: "\<Union>(set ` set ?Bs) = {0..<num_nodes g}" .
  have "out' = map (\<lambda>v. ?post (?F v)) [0..<num_nodes g]"
  proof (rule nth_equalityI)
    show "length out' = length (map (\<lambda>v. ?post (?F v)) [0..<num_nodes g])"
      using l' by simp
  next
    fix i
    assume "i < length out'"
    then have i: "i < num_nodes g" using l' by simp
    then have "out' ! i = ?post (?F i)"
      using n' cover by simp
    with i show "out' ! i = map (\<lambda>v. ?post (?F v)) [0..<num_nodes g] ! i"
      by simp
  qed
  with r show ?thesis by (simp cong: if_cong)
qed

subsection \<open>All layers\<close>

lemma inference_layers_forward:
  fixes g :: graph
  assumes vg: "valid_graph g" and bs: "0 < bs"
    and lx: "length x = num_nodes g"
    and width: "\<forall>layer \<in> set ls. \<forall>h ns. length (layer h ns) = n_hidden sage"
  shows "\<exists>h. inference_layers sage g
                (map (full_neighbor_batch g) (batches_of bs [0..<num_nodes g]))
                (enumerate k ls) x (Some x) = Inr h
           \<and> forward_loop (n_layers sage)
                (enumerate k (zip ls (replicate (length ls) (graph_block g)))) x = Inr h"
  using lx width
proof (induction ls arbitrary: k x)
  case Nil
  show ?case by simp
next
  case (Cons layer ls)
  let ?dl = "map (full_neighbor_batch g) (batches_of bs [0..<num_nodes g])"
  let ?x1 = "map (\<lambda>v. layer (x ! v)
                        (map (\<lambda>(u, w). x ! u) (filter (\<lambda>(u, w). w = v) (edges g))))
                 [0..<num_nodes g]"
  let ?y = "if int k \<noteq> n_layers sage - 1 then relu ?x1 else ?x1"
  have w: "\<forall>h ns. length (layer h ns) = n_hidden sage"
    using Cons.prems(2) by simp
  have inner: "inference_batches sage k layer x ?dl (zeros [number_of_nodes g, n_hidden sage])
                 = Inr ?y"
    unfolding inference_batches_layer [OF vg Cons.prems(1) w bs]
    by (simp add: relu_def)
  have whole: "layer_call layer (graph_block g) x = Inr ?x1"
    using Cons.prems(1) by (rule layer_call_graph)
  have ly: "length ?y = num_nodes g"
    by (simp add: relu_def)
  have "\<forall>layer \<in> set ls. \<forall>h ns. length (layer h ns) = n_hidden sage"
    using Cons.prems(2) by simp
  from Cons.IH [OF ly this, of "Suc k"] obtain h where
    a: "inference_layers sage g ?dl (enumerate (Suc k) ls) ?y (Some ?y) = Inr h" and
    b: "forward_loop (n_layers sage)
          (enumerate (Suc k) (zip ls (replicate (length ls) (graph_block g)))) ?y = Inr h"
    by blast
  have "inference_layers sage g ?dl (enumerate k (layer # ls)) x (Some x) = Inr h"
    using a by (simp add: inner)
  moreover have "forward_loop (n_layers sage)
          (enumerate k (zip (layer # ls) (replicate (length (layer # ls)) (graph_block g)))) x
        = Inr h"
    using b by (simp add: whole)
  ultimately show ?case by blast
qed

lemma inference_layers_unbound:
  "ls \<noteq> [] \<Longrightarrow>
     inference_layers sage g dl (enumerate k ls) x None
       = inference_layers sage g dl (enumerate k ls) x (Some x)"
  by (cases ls) simp_all

lemma inference_eq_forward:
  assumes "valid_graph g" and "length x = num_nodes g" and "layers sage \<noteq> []"
    and "\<forall>layer \<in> set (layers sage). \<forall>h ns. length (layer h ns) = n_hidden sage"
    and "0 < batch_size"
  shows "\<exists>h. SAGE_forward sage (replicate (length (layers sage)) (graph_block g)) x = Inr h
           \<and> inference sage g x batch_size = Inr h"
proof -
  have bs: "0 < nat batch_size" using assms(5) by simp
  let ?dl = "map (full_neighbor_batch g) (batches_of (nat batch_size) [0..<num_nodes g])"
  from inference_layers_forward [OF assms(1) bs assms(2) assms(4), of 0] obtain h where
    a: "inference_layers sage g ?dl (enumerate 0 (layers sage)) x (Some x) = Inr h" and
    b: "forward_loop (n_layers sage)
          (enumerate 0 (zip (layers sage) (replicate (length (layers sage)) (graph_block g)))) x
        = Inr h"
    by blast
  have "inference sage g x batch_size
          = inference_layers sage g ?dl (enumerate 0 (layers sage)) x None"
    using assms(5)
    by (simp add: inference_def full_neighbor_loader_def number_of_nodes_def)
  also have "\<dots> = Inr h"
    using a inference_layers_unbound [OF assms(3)] by simp
  finally have "inference sage g x batch_size = Inr h" .
  moreover have "SAGE_forward sage (replicate (length (layers sage)) (graph_block g)) x = Inr h"
    using b by (simp add: SAGE_forward_def)
  ultimately show ?thesis by blast
qed

text \<open>Every model that \<open>SAGE.__init__\<close> builds has a layer, and its layers all have
  \<open>n_hidden\<close> output features.\<close>

lemma SAGE_init_layers:
  assumes "\<forall>i a b h ns. length (SAGEConv i a b h ns) = b"
  shows "layers (SAGE_init SAGEConv in_feats hidden n) \<noteq> []"
    and "\<forall>layer \<in> set (layers (SAGE_init SAGEConv in_feats hidden n)). \<forall>h ns.
           length (layer h ns) = n_hidden (SAGE_init SAGEConv in_feats hidden n)"
  using assms by (auto simp: SAGE_init_def)

text \<open>
  Claim C4. Take a graph whose edges join its nodes, input features with one row per
  node, a model with at least one layer whose layers all have \<open>n_hidden\<close> output
  features (as \<open>SAGE.__init__\<close> builds them), and positive batch sizes. Then
  \<open>model.forward\<close> applied to the whole graph at every layer returns node
  representations, and \<open>inference\<close> returns the same representations, whatever the
  batch size.
\<close>

theorem inference_matches_forward:
  assumes "valid_graph g" and "length x = num_nodes g" and "layers sage \<noteq> []"
    and "\<forall>layer \<in> set (layers sage). \<forall>h ns. length (layer h ns) = n_hidden sage"
    and "0 < batch_size" and "0 < batch_size'"
  shows "\<exists>h. SAGE_forward sage (replicate (length (layers sage)) (graph_block g)) x = Inr h
           \<and> inference sage g x batch_size = Inr h
           \<and> inference sage g x batch_size' = Inr h"
  using inference_eq_forward [OF assms(1-5)] inference_eq_forward [OF assms(1-4) assms(6)]
  by auto

text \<open>
  The theorem on a cycle of three nodes and a model of two layers with one feature,
  each layer subtracting the sum of the neighbors' rows from the node's own row: the
  forward pass gives 4, -3 and -1, and so does the inference with batch sizes 1 and 2.
\<close>

theorem inference_matches_forward_witness:
  "valid_graph \<lparr>num_nodes = 3, edges = [(0, 1), (1, 2), (2, 0)]\<rparr>
   \<and> length [[1], [2], [-3 :: real]] = num_nodes \<lparr>num_nodes = 3, edges = [(0, 1), (1, 2), (2, 0)]\<rparr>
   \<and> layers (SAGE_init (\<lambda>i a b h ns. replicate b (sum_list h - sum_list (concat ns))) 1 1 2)
       \<noteq> []
   \<and> list_all (\<lambda>layer. \<forall>h ns. length (layer h ns) = 1)
        (layers (SAGE_init (\<lambda>i a b h ns. replicate b (sum_list h - sum_list (concat ns))) 1 1 2))
   \<and> SAGE_forward (SAGE_init (\<lambda>i a b h ns. replicate b (sum_list h - sum_list (concat ns))) 1 1 2)
        [graph_block \<lparr>num_nodes = 3, edges = [(0, 1), (1, 2), (2, 0)]\<rparr>,
         graph_block \<lparr>num_nodes = 3, edges = [(0, 1), (1, 2), (2, 0)]\<rparr>]
        [[1], [2], [-3]]
       = Inr [[4], [-3], [-1]]
   \<and> inference (SAGE_init (\<lambda>i a b h ns. replicate b (sum_list h - sum_list (concat ns))) 1 1 2)
        \<lparr>num_nodes = 3, edges = [(0, 1), (1, 2), (2, 0)]\<rparr> [[1], [2], [-3]] 1
       = Inr [[4], [-3], [-1]]
   \<and> inference (SAGE_init (\<lambda>i a b h ns. replicate b (sum_list h - sum_list (concat ns))) 1 1 2)
        \<lparr>num_nodes = 3, edges = [(0, 1), (1, 2), (2, 0)]\<rparr> [[1], [2], [-3]] 2
       = Inr [[4], [-3], [-1]]"
proof -
  let ?g = "\<lparr>num_nodes = 3, edges = [(0, 1), (1, 2), (2, 0)]\<rparr>"
  let ?x = "[[1], [2], [-3 :: real]]"
  let ?m = "SAGE_init (\<lambda>i a b h ns. replicate b (sum_list h - sum_list (concat ns))) 1 1 2"
  have up: "[1..<nat 2] = [1]" by (simp add: upt_rec)
  have ls: "layers ?m = [\<lambda>h ns. replicate 1 (sum_list h - sum_list (concat ns)),
                        \<lambda>h ns. replicate 1 (sum_list h - sum_list (concat ns))]"
    unfolding SAGE_init_def up by simp
  have nl: "n_layers ?m = 2" and nh: "n_hidden ?m = 1"
    by (simp_all add: SAGE_init_def)
  have h1: "valid_graph ?g" by (simp add: valid_graph_def)
  have h2: "length ?x = num_nodes ?g" by simp
  have h3: "layers ?m \<noteq> []" unfolding ls by simp
  have h4: "\<forall>layer \<in> set (layers ?m). \<forall>h ns. length (layer h ns) = n_hidden ?m"
    unfolding ls nh by simp
  have h4': "list_all (\<lambda>layer. \<forall>h ns. length (layer h ns) = 1) (layers ?m)"
    unfolding ls by simp
  have h5: "(0::int) < 1" and h6: "(0::int) < 2" by simp_all
  have len: "length (layers ?m) = 2" unfolding ls by simp
  have rep: "replicate (length (layers ?m)) (graph_block ?g) = [graph_block ?g, graph_block ?g]"
    unfolding len by (simp add: numeral_2_eq_2)
  have fw: "SAGE_forward ?m [graph_block ?g, graph_block ?g] ?x = Inr [[4], [-3], [-1]]"
    unfolding SAGE_forward_def ls nl
    by (simp add: enumerate_eq_zip upt_rec layer_call_def graph_block_def relu_def)
  from inference_matches_forward [OF h1 h2 h3 h4 h5 h6] obtain h where
    a: "SAGE_forward ?m (replicate (length (layers ?m)) (graph_block ?g)) ?x = Inr h" and
    b: "inference ?m ?g ?x 1 = Inr h" and
    c: "inference ?m ?g ?x 2 = Inr h"
    by blast
  from a fw have "h = [[4], [-3], [-1]]"
    unfolding rep by simp
  with b c fw h1 h2 h3 h4' show ?thesis
    by (intro conjI) simp_all
qed

end
